theory Spec2Isabelle
  imports Complex_Main
begin

section \<open>Python numbers\<close>

text \<open>
  Python's \<^verbatim>\<open>int\<close> is \<^typ>\<open>int\<close>. Python's \<^verbatim>\<open>float\<close> is an IEEE 754 double; a finite double is
  a rational number, so a float is a \<^typ>\<open>rat\<close> and every arithmetic operation computes the exact
  result and rounds it to the nearest double, ties to the even significand (\<open>rd\<close>).
  The exponent range is bounded below (subnormal numbers have the fixed quantum \<open>2 powi -1074\<close>).
  \<open>rd\<close> and the operations \<open>fadd\<close> to \<open>int_truediv\<close> are unbounded above: they are the
  arithmetic of Python as long as every result stays below \<open>2 ^ 1024\<close>. The operations on
  \<open>pyfloat\<close> at the end of this section add what happens beyond: infinities, NaN and the
  two errors that Python raises.
\<close>

definition round_half_even :: "rat \<Rightarrow> int" where
  "round_half_even x =
     (let f = \<lfloor>x\<rfloor>; d = x - of_int f
      in if d < 1 / 2 then f
         else if 1 / 2 < d then f + 1
         else if even f then f else f + 1)"

text \<open>The binary exponent of a positive number: \<open>exponent_up\<close> for \<open>1 \<le> x\<close>, \<open>exponent_down\<close>
  for \<open>x < 1\<close>, which stops at the smallest normal exponent.\<close>

function exponent_up :: "rat \<Rightarrow> int" where
  "exponent_up x = (if 2 \<le> x then exponent_up (x / 2) + 1 else 0)"
  by pat_completeness auto
termination
  by (relation "measure (\<lambda>x. nat \<lfloor>x\<rfloor>)") (auto, linarith)

declare exponent_up.simps [simp del]

fun exponent_down :: "nat \<Rightarrow> rat \<Rightarrow> int" where
  "exponent_down 0 x = 0"
| "exponent_down (Suc n) x = (if x < 1 then exponent_down n (2 * x) - 1 else 0)"

definition float_exponent :: "rat \<Rightarrow> int" where
  "float_exponent x =
     (if 1 \<le> \<bar>x\<bar> then exponent_up \<bar>x\<bar> else exponent_down 1022 \<bar>x\<bar>)"

definition rd :: "rat \<Rightarrow> rat" where
  "rd x = (if x = 0 then 0
           else let q = 2 powi (float_exponent x - 52)
                in of_int (round_half_even (x / q)) * q)"

text \<open>A decimal literal such as \<^verbatim>\<open>-0.21\<close> denotes the nearest double.\<close>

definition float_lit :: "rat \<Rightarrow> rat" where
  "float_lit x = rd x"

text \<open>\<^verbatim>\<open>float(n)\<close>, also the implicit conversion of an int operand in mixed arithmetic.\<close>

definition float_of_int :: "int \<Rightarrow> rat" where
  "float_of_int n = rd (of_int n)"

definition fadd :: "rat \<Rightarrow> rat \<Rightarrow> rat" where
  "fadd x y = rd (x + y)"

definition fsub :: "rat \<Rightarrow> rat \<Rightarrow> rat" where
  "fsub x y = rd (x - y)"

definition fmul :: "rat \<Rightarrow> rat \<Rightarrow> rat" where
  "fmul x y = rd (x * y)"

text \<open>Every divisor in the source is a non-zero constant, so \<^verbatim>\<open>ZeroDivisionError\<close> has no
  branch here.\<close>

definition fdiv :: "rat \<Rightarrow> rat \<Rightarrow> rat" where
  "fdiv x y = rd (x / y)"

text \<open>\<^verbatim>\<open>a / b\<close> on two ints is the correctly rounded quotient of the integers.\<close>

definition int_truediv :: "int \<Rightarrow> int \<Rightarrow> rat" where
  "int_truediv a b = rd (of_int a / of_int b)"

text \<open>\<^verbatim>\<open>int(x)\<close> on a float truncates toward zero.\<close>

definition py_int :: "rat \<Rightarrow> int" where
  "py_int x = (if 0 \<le> x then \<lfloor>x\<rfloor> else \<lceil>x\<rceil>)"

datatype py_error = ValueError | OverflowError

text \<open>
  A float with the infinities and NaN. The two zeros are one value here: the source never
  divides by a computed number, and \<^verbatim>\<open>int()\<close>, sums and products give the same results for
  both.
\<close>

datatype pyfloat = Fin rat | PInf | NInf | NaN

text \<open>The result of an arithmetic operation whose exact value is \<open>x\<close>: it overflows to an
  infinity when its rounding reaches \<open>2 ^ 1024\<close>. Float arithmetic raises nothing.\<close>

definition pf_round :: "rat \<Rightarrow> pyfloat" where
  "pf_round x =
     (let r = rd x
      in if 2 ^ 1024 \<le> r then PInf else if r \<le> - (2 ^ 1024) then NInf else Fin r)"

definition signed_inf :: "rat \<Rightarrow> pyfloat" where
  "signed_inf x = (if x = 0 then NaN else if 0 < x then PInf else NInf)"

fun pf_mul :: "pyfloat \<Rightarrow> pyfloat \<Rightarrow> pyfloat" where
  "pf_mul (Fin x) (Fin y) = pf_round (x * y)"
| "pf_mul (Fin x) PInf = signed_inf x"
| "pf_mul (Fin x) NInf = signed_inf (- x)"
| "pf_mul PInf (Fin y) = signed_inf y"
| "pf_mul NInf (Fin y) = signed_inf (- y)"
| "pf_mul PInf PInf = PInf"
| "pf_mul PInf NInf = NInf"
| "pf_mul NInf PInf = NInf"
| "pf_mul NInf NInf = PInf"
| "pf_mul NaN y = NaN"
| "pf_mul x NaN = NaN"

fun pf_add :: "pyfloat \<Rightarrow> pyfloat \<Rightarrow> pyfloat" where
  "pf_add (Fin x) (Fin y) = pf_round (x + y)"
| "pf_add (Fin x) PInf = PInf"
| "pf_add (Fin x) NInf = NInf"
| "pf_add PInf (Fin y) = PInf"
| "pf_add NInf (Fin y) = NInf"
| "pf_add PInf PInf = PInf"
| "pf_add PInf NInf = NaN"
| "pf_add NInf PInf = NaN"
| "pf_add NInf NInf = NInf"
| "pf_add NaN y = NaN"
| "pf_add x NaN = NaN"

text \<open>Division by a finite divisor \<open>c\<close> that is not zero.\<close>

fun pf_div :: "pyfloat \<Rightarrow> rat \<Rightarrow> pyfloat" where
  "pf_div (Fin x) c = pf_round (x / c)"
| "pf_div PInf c = signed_inf c"
| "pf_div NInf c = signed_inf (- c)"
| "pf_div NaN c = NaN"

text \<open>The conversion of an int operand in mixed arithmetic raises \<^verbatim>\<open>OverflowError\<close> for an int
  too large for a float, and so does the true division of two ints whose quotient is too
  large.\<close>

definition pf_of_int :: "int \<Rightarrow> py_error + pyfloat" where
  "pf_of_int n =
     (let r = rd (of_int n)
      in if 2 ^ 1024 \<le> \<bar>r\<bar> then Inl OverflowError else Inr (Fin r))"

definition pf_int_truediv :: "int \<Rightarrow> int \<Rightarrow> py_error + pyfloat" where
  "pf_int_truediv a b =
     (let r = rd (of_int a / of_int b)
      in if 2 ^ 1024 \<le> \<bar>r\<bar> then Inl OverflowError else Inr (Fin r))"

text \<open>\<^verbatim>\<open>int(x)\<close> raises \<^verbatim>\<open>OverflowError\<close> for an infinity and \<^verbatim>\<open>ValueError\<close> for NaN.\<close>

fun pf_int :: "pyfloat \<Rightarrow> py_error + int" where
  "pf_int (Fin x) = Inr (py_int x)"
| "pf_int PInf = Inl OverflowError"
| "pf_int NInf = Inl OverflowError"
| "pf_int NaN = Inl ValueError"

section \<open>Dates and times\<close>

record py_date =
  d_year :: int
  d_month :: int
  d_day :: int

text \<open>An aware \<^verbatim>\<open>datetime\<close>; \<open>utcoffset\<close> is the offset of its fixed time zone in seconds.\<close>

record py_datetime =
  year :: int
  month :: int
  day :: int
  hour :: int
  minute :: int
  second :: int
  microsecond :: int
  utcoffset :: int

text \<open>A \<^verbatim>\<open>timedelta\<close> is kept normalised: \<open>0 \<le> seconds < 86400\<close>,
  \<open>0 \<le> microseconds < 1000000\<close>.\<close>

record timedelta =
  days :: int
  seconds :: int
  microseconds :: int

definition mk_timedelta :: "int \<Rightarrow> int \<Rightarrow> int \<Rightarrow> timedelta" where
  "mk_timedelta d s us =
     (let total = (d * 86400 + s) * 1000000 + us;
          r = total mod (86400 * 1000000)
      in \<lparr> days = total div (86400 * 1000000),
           seconds = r div 1000000,
           microseconds = r mod 1000000 \<rparr>)"

definition total_seconds :: "timedelta \<Rightarrow> rat" where
  "total_seconds td =
     int_truediv ((days td * 86400 + seconds td) * 1000000 + microseconds td) 1000000"

definition is_leap :: "int \<Rightarrow> bool" where
  "is_leap y = (y mod 4 = 0 \<and> (y mod 100 \<noteq> 0 \<or> y mod 400 = 0))"

definition days_before_year :: "int \<Rightarrow> int" where
  "days_before_year y = (let y1 = y - 1 in y1 * 365 + y1 div 4 - y1 div 100 + y1 div 400)"

text \<open>The ordinal of a date, as \<^verbatim>\<open>_ymd2ord\<close> computes it. The month of a datetime is from 1 to
  12 (the constructor refuses any other), so the table is read in range.\<close>

definition days_before_month_table :: "int list" where
  "days_before_month_table = [0, 31, 59, 90, 120, 151, 181, 212, 243, 273, 304, 334]"

definition days_before_month :: "int \<Rightarrow> int \<Rightarrow> int" where
  "days_before_month y m =
     days_before_month_table ! nat (m - 1) + (if 2 < m \<and> is_leap y then 1 else 0)"

definition ymd2ord :: "int \<Rightarrow> int \<Rightarrow> int \<Rightarrow> int" where
  "ymd2ord y m d = days_before_year y + days_before_month y m + d"

definition toordinal :: "py_datetime \<Rightarrow> int" where
  "toordinal dt = ymd2ord (year dt) (month dt) (day dt)"

text \<open>Subtraction of two aware datetimes.\<close>

definition datetime_sub :: "py_datetime \<Rightarrow> py_datetime \<Rightarrow> timedelta" where
  "datetime_sub a b =
     (let secs1 = second a + minute a * 60 + hour a * 3600;
          secs2 = second b + minute b * 60 + hour b * 3600;
          off = (if utcoffset a = utcoffset b then 0 else utcoffset b - utcoffset a)
      in mk_timedelta (toordinal a - toordinal b) (secs1 - secs2 + off)
           (microsecond a - microsecond b))"

definition unix_epoch :: py_datetime where
  "unix_epoch = \<lparr> year = 1970, month = 1, day = 1, hour = 0, minute = 0, second = 0,
                  microsecond = 0, utcoffset = 0 \<rparr>"

definition datetime_timestamp :: "py_datetime \<Rightarrow> rat" where
  "datetime_timestamp dt = total_seconds (datetime_sub dt unix_epoch)"

definition datetime_date :: "py_datetime \<Rightarrow> py_date" where
  "datetime_date dt = \<lparr> d_year = year dt, d_month = month dt, d_day = day dt \<rparr>"

text \<open>
  The date of an ordinal, as \<^verbatim>\<open>_ord2ymd\<close> of the library computes it: 146097 days in 400
  years, 36524 in 100, 1461 in 4.
\<close>

definition days_in_month_table :: "int list" where
  "days_in_month_table = [31, 28, 31, 30, 31, 30, 31, 31, 30, 31, 30, 31]"

definition ord2ymd :: "int \<Rightarrow> int \<times> int \<times> int" where
  "ord2ymd ordinal =
     (let n0 = ordinal - 1;
          n400 = n0 div 146097; r400 = n0 mod 146097;
          n100 = r400 div 36524; r100 = r400 mod 36524;
          n4 = r100 div 1461; r4 = r100 mod 1461;
          n1 = r4 div 365; n = r4 mod 365;
          y = n400 * 400 + 1 + n100 * 100 + n4 * 4 + n1
      in if n1 = 4 \<or> n100 = 4 then (y - 1, 12, 31)
         else
           let leapyear = (n1 = 3 \<and> (n4 \<noteq> 24 \<or> n100 = 3));
               m = (n + 50) div 32;
               preceding = days_before_month_table ! nat (m - 1) +
                           (if 2 < m \<and> leapyear then 1 else 0)
           in if n < preceding
              then
                let m' = m - 1;
                    preceding' = preceding -
                      (days_in_month_table ! nat (m' - 1) +
                       (if m' = 2 \<and> leapyear then 1 else 0))
                in (y, m', n - preceding' + 1)
              else (y, m, n - preceding + 1))"

text \<open>
  \<^verbatim>\<open>datetime.now(tz)\<close> for a fixed-offset time zone: \<open>clock_us\<close> is the reading of the system
  clock in whole microseconds of Unix time (the library rounds \<^verbatim>\<open>time.time()\<close> to
  microseconds), \<open>offset\<close> the offset of the zone in seconds. The result is the date and
  the time of day of the instant at that offset. Ordinal 719163 is 1970-01-01.
\<close>

definition datetime_now :: "int \<Rightarrow> int \<Rightarrow> py_datetime" where
  "datetime_now offset clock_us =
     (let local_us = clock_us + offset * 1000000;
          ordinal = 719163 + local_us div (86400 * 1000000);
          rest = local_us mod (86400 * 1000000);
          ymd = ord2ymd ordinal
      in \<lparr> year = fst ymd, month = fst (snd ymd), day = snd (snd ymd),
           hour = rest div 3600000000,
           minute = rest div 60000000 mod 60,
           second = rest div 1000000 mod 60,
           microsecond = rest mod 1000000,
           utcoffset = offset \<rparr>)"

text \<open>The time-of-day fields of a datetime are in range.\<close>

definition valid_time :: "py_datetime \<Rightarrow> bool" where
  "valid_time dt =
     (0 \<le> hour dt \<and> hour dt < 24 \<and> 0 \<le> minute dt \<and> minute dt < 60 \<and>
      0 \<le> second dt \<and> second dt < 60 \<and> 0 \<le> microsecond dt \<and> microsecond dt < 1000000)"

definition two_digits :: "int \<Rightarrow> string" where
  "two_digits n = [char_of (48 + (n div 10) mod 10), char_of (48 + n mod 10)]"

text \<open>\<^verbatim>\<open>strftime("%H:%M:%S")\<close>\<close>

definition strftime_hms :: "py_datetime \<Rightarrow> string" where
  "strftime_hms dt = two_digits (hour dt) @ '':'' @ two_digits (minute dt) @ '':'' @
     two_digits (second dt)"

section \<open>The data model\<close>

record PopulationEvent =
  ev_country :: string
  ev_event_type :: string
  ev_timestamp :: rat

record CountryData =
  name :: string
  base_population :: int
  base_year :: int
  base_date :: string
  annual_births :: int
  annual_deaths :: int
  annual_growth_rate :: rat
  fertility_rate :: rat
  life_expectancy :: rat
  birth_rate :: rat
  death_rate :: rat
  data_source :: string

definition calculate_daily_increment :: "CountryData \<Rightarrow> rat" where
  "calculate_daily_increment cd =
     (let annual_increment =
            fmul (float_of_int (base_population cd))
              (fdiv (annual_growth_rate cd) (float_of_int 100))
      in fdiv annual_increment (float_lit (1461 / 4)))"

definition seconds_per_year :: rat where
  "seconds_per_year =
     fmul (fmul (fmul (float_lit (1461 / 4)) (float_of_int 24)) (float_of_int 60))
       (float_of_int 60)"

definition calculate_birth_death_rates_per_second :: "CountryData \<Rightarrow> rat \<times> rat" where
  "calculate_birth_death_rates_per_second cd =
     (let births_per_second = fdiv (float_of_int (annual_births cd)) seconds_per_year;
          deaths_per_second = fdiv (float_of_int (annual_deaths cd)) seconds_per_year
      in (births_per_second, deaths_per_second))"

record PopulationState =
  timestamp :: rat
  south_korea_population :: int
  north_korea_population :: int
  total_population :: int
  sk_births_today :: int
  sk_deaths_today :: int
  nk_births_today :: int
  nk_deaths_today :: int
  seconds_since_midnight_kst :: int
  recent_events :: "PopulationEvent list"

text \<open>
  The fields of \<^verbatim>\<open>PopulationManager\<close>. Those whose name a field of \<open>PopulationState\<close>
  already has carry the prefix \<open>self_\<close>. \<open>sk_daily_increment\<close> and \<open>nk_daily_increment\<close>
  are attributes that only \<open>update_base_data\<close> creates. \<open>'c\<close> is the type of the
  web-socket handles.
\<close>

record 'c PopulationManager =
  connected_clients :: "'c list"
  last_update_time :: rat
  broadcast_interval :: rat
  resync_interval :: rat
  last_resync_time :: rat
  sk_population :: int
  nk_population :: int
  self_recent_events :: "PopulationEvent list"
  max_recent_events :: int
  self_sk_births_today :: int
  self_sk_deaths_today :: int
  self_nk_births_today :: int
  self_nk_deaths_today :: int
  current_day :: py_date
  south_korea_data :: CountryData
  north_korea_data :: CountryData
  sk_births_per_sec :: rat
  sk_deaths_per_sec :: rat
  nk_births_per_sec :: rat
  nk_deaths_per_sec :: rat
  sk_daily_increment :: "rat option"
  nk_daily_increment :: "rat option"

definition initial_south_korea_data :: CountryData where
  "initial_south_korea_data =
     \<lparr> name = ''South Korea'',
       base_population = 51628117,
       base_year = 2024,
       base_date = ''2024-01-01T00:00:00Z'',
       annual_births = 216215,
       annual_deaths = 325162,
       annual_growth_rate = float_lit (- (21 / 100)),
       fertility_rate = float_lit (748 / 1000),
       life_expectancy = float_lit (755 / 10),
       birth_rate = float_lit (42 / 10),
       death_rate = float_lit (63 / 10),
       data_source = ''KOSIS (Korean Statistical Information Service)'' \<rparr>"

definition initial_north_korea_data :: CountryData where
  "initial_north_korea_data =
     \<lparr> name = ''North Korea'',
       base_population = 25971909,
       base_year = 2024,
       base_date = ''2024-01-01T00:00:00Z'',
       annual_births =
         py_int (fdiv (fmul (float_of_int 25971909) (float_lit (132 / 10))) (float_of_int 1000)),
       annual_deaths =
         py_int (fdiv (fmul (float_of_int 25971909) (float_lit (92 / 10))) (float_of_int 1000)),
       annual_growth_rate = float_lit (4 / 10),
       fertility_rate = float_lit (19 / 10),
       life_expectancy = float_lit (723 / 10),
       birth_rate = float_lit (132 / 10),
       death_rate = float_lit (92 / 10),
       data_source = ''CIA World Factbook 2024'' \<rparr>"

text \<open>
  \<^verbatim>\<open>__init__\<close>. Its three clock readings are arguments: the two calls of \<^verbatim>\<open>time.time()\<close> and
  the call of \<^verbatim>\<open>get_korea_timezone_now()\<close>.
\<close>

definition init :: "rat \<Rightarrow> rat \<Rightarrow> py_datetime \<Rightarrow> 'c PopulationManager" where
  "init t_update t_resync now_kst =
     (let sk = calculate_birth_death_rates_per_second initial_south_korea_data;
          nk = calculate_birth_death_rates_per_second initial_north_korea_data
      in \<lparr> connected_clients = [],
           last_update_time = t_update,
           broadcast_interval = float_lit 1,
           resync_interval = float_lit 30,
           last_resync_time = t_resync,
           sk_population = 0,
           nk_population = 0,
           self_recent_events = [],
           max_recent_events = 0,
           self_sk_births_today = 0,
           self_sk_deaths_today = 0,
           self_nk_births_today = 0,
           self_nk_deaths_today = 0,
           current_day = datetime_date now_kst,
           south_korea_data = initial_south_korea_data,
           north_korea_data = initial_north_korea_data,
           sk_births_per_sec = fst sk,
           sk_deaths_per_sec = snd sk,
           nk_births_per_sec = fst nk,
           nk_deaths_per_sec = snd nk,
           sk_daily_increment = None,
           nk_daily_increment = None \<rparr>)"

section \<open>The estimator\<close>

text \<open>
  The clock is an input: each call of \<^verbatim>\<open>time.time()\<close> and of \<open>get_korea_timezone_now\<close> in the
  source is an argument of the function that makes the call. \<open>get_days_since_base_date\<close>,
  the one function that computes with \<open>base_date\<close>, is called nowhere, and the functions that only
  print are left out.
\<close>

text \<open>
  \<open>get_korea_timezone_now\<close>: the reading \<open>clock_us\<close> of the system clock as a datetime of the
  fixed time zone \<^verbatim>\<open>timezone(timedelta(hours=9))\<close>.
\<close>

definition get_korea_timezone_now :: "int \<Rightarrow> py_datetime" where
  "get_korea_timezone_now clock_us = (let kst = 9 * 3600 in datetime_now kst clock_us)"

text \<open>\<open>get_seconds_since_midnight_kst\<close>, from the reading \<open>now_kst\<close> that
  \<open>get_korea_timezone_now\<close> returned.\<close>

definition get_seconds_since_midnight_kst :: "py_datetime \<Rightarrow> int" where
  "get_seconds_since_midnight_kst now_kst =
     (let midnight_kst = now_kst\<lparr> hour := 0, minute := 0, second := 0, microsecond := 0 \<rparr>;
          delta = datetime_sub now_kst midnight_kst
      in py_int (total_seconds delta))"

text \<open>\<^verbatim>\<open>datetime(2024, 1, 1, tzinfo=timezone.utc)\<close>\<close>

definition epoch_2024 :: py_datetime where
  "epoch_2024 = \<lparr> year = 2024, month = 1, day = 1, hour = 0, minute = 0, second = 0,
                  microsecond = 0, utcoffset = 0 \<rparr>"

text \<open>The growth formula of one country, lines 233 and 236 (234 and 237).\<close>

definition growth_increment :: "CountryData \<Rightarrow> rat \<Rightarrow> rat" where
  "growth_increment cd time_elapsed_days =
     fmul (fmul (fdiv (annual_growth_rate cd) (float_of_int 100))
                (float_of_int (base_population cd)))
          (fdiv time_elapsed_days (float_lit (1461 / 4)))"

definition grown_population :: "CountryData \<Rightarrow> rat \<Rightarrow> int" where
  "grown_population cd time_elapsed_days =
     py_int (fadd (float_of_int (base_population cd)) (growth_increment cd time_elapsed_days))"

text \<open>The count of one kind of event so far today, lines 244 to 247.\<close>

definition events_today :: "int \<Rightarrow> rat \<Rightarrow> int" where
  "events_today annual day_fraction =
     py_int (fdiv (fmul (float_of_int annual) day_fraction) (float_lit (1461 / 4)))"

text \<open>
  \<open>calculate_current_population\<close>. The clock is read three times: \<open>current_time\<close> is
  \<^verbatim>\<open>time.time()\<close>, \<open>now_date\<close> the reading whose date is compared with \<open>current_day\<close>, and
  \<open>now_secs\<close> the reading inside \<open>get_seconds_since_midnight_kst\<close>.
\<close>

definition calculate_current_population ::
  "'c PopulationManager \<Rightarrow> rat \<Rightarrow> py_datetime \<Rightarrow> py_datetime \<Rightarrow>
     'c PopulationManager \<times> PopulationState" where
  "calculate_current_population self current_time now_date now_secs =
     (let current_date = datetime_date now_date;
          self1 = (if current_date \<noteq> current_day self
                   then self\<lparr> current_day := current_date \<rparr> else self);
          base_timestamp = datetime_timestamp epoch_2024;
          time_elapsed_seconds = fsub current_time base_timestamp;
          time_elapsed_days = fdiv time_elapsed_seconds (float_of_int (24 * 60 * 60));
          self2 = self1\<lparr> sk_population :=
                            grown_population (south_korea_data self1) time_elapsed_days,
                         nk_population :=
                            grown_population (north_korea_data self1) time_elapsed_days \<rparr>;
          seconds_today = get_seconds_since_midnight_kst now_secs;
          day_fraction = int_truediv seconds_today (24 * 60 * 60);
          self3 = self2\<lparr>
            self_sk_births_today :=
              events_today (annual_births (south_korea_data self2)) day_fraction,
            self_sk_deaths_today :=
              events_today (annual_deaths (south_korea_data self2)) day_fraction,
            self_nk_births_today :=
              events_today (annual_births (north_korea_data self2)) day_fraction,
            self_nk_deaths_today :=
              events_today (annual_deaths (north_korea_data self2)) day_fraction,
            last_update_time := current_time \<rparr>
      in (self3,
          \<lparr> timestamp = current_time,
            south_korea_population = sk_population self3,
            north_korea_population = nk_population self3,
            total_population = sk_population self3 + nk_population self3,
            sk_births_today = self_sk_births_today self3,
            sk_deaths_today = self_sk_deaths_today self3,
            nk_births_today = self_nk_births_today self3,
            nk_deaths_today = self_nk_deaths_today self3,
            seconds_since_midnight_kst = seconds_today,
            recent_events = self_recent_events self3 \<rparr>))"

text \<open>
  The same function with the errors of Python's arithmetic: the int operands of lines
  233 to 247 are converted to float, which raises \<^verbatim>\<open>OverflowError\<close> for an int that is
  too large, products and sums overflow to infinities, and \<^verbatim>\<open>int()\<close> raises for an
  infinity or NaN. The statements run in the order of the source; an error leaves the
  function at once.
\<close>

definition growth_increment_checked :: "CountryData \<Rightarrow> pyfloat \<Rightarrow> py_error + pyfloat" where
  "growth_increment_checked cd time_elapsed_days =
     (case pf_of_int (base_population cd) of
        Inl e \<Rightarrow> Inl e
      | Inr base \<Rightarrow>
          Inr (pf_mul (pf_mul (pf_div (Fin (annual_growth_rate cd)) (float_of_int 100)) base)
                 (pf_div time_elapsed_days (float_lit (1461 / 4)))))"

definition grown_population_checked :: "CountryData \<Rightarrow> pyfloat \<Rightarrow> py_error + int" where
  "grown_population_checked cd increment =
     (case pf_of_int (base_population cd) of
        Inl e \<Rightarrow> Inl e
      | Inr base \<Rightarrow> pf_int (pf_add base increment))"

definition events_today_checked :: "int \<Rightarrow> pyfloat \<Rightarrow> py_error + int" where
  "events_today_checked annual day_fraction =
     (case pf_of_int annual of
        Inl e \<Rightarrow> Inl e
      | Inr a \<Rightarrow> pf_int (pf_div (pf_mul a day_fraction) (float_lit (1461 / 4))))"

definition calculate_current_population_checked ::
  "'c PopulationManager \<Rightarrow> rat \<Rightarrow> py_datetime \<Rightarrow> py_datetime \<Rightarrow>
     py_error + ('c PopulationManager \<times> PopulationState)" where
  "calculate_current_population_checked self current_time now_date now_secs =
     (let current_date = datetime_date now_date;
          self1 = (if current_date \<noteq> current_day self
                   then self\<lparr> current_day := current_date \<rparr> else self);
          base_timestamp = datetime_timestamp epoch_2024;
          time_elapsed_seconds = pf_round (current_time - base_timestamp);
          time_elapsed_days = pf_div time_elapsed_seconds (float_of_int (24 * 60 * 60))
      in case growth_increment_checked (south_korea_data self1) time_elapsed_days of
           Inl e \<Rightarrow> Inl e
         | Inr sk_growth_increment \<Rightarrow>
      case growth_increment_checked (north_korea_data self1) time_elapsed_days of
           Inl e \<Rightarrow> Inl e
         | Inr nk_growth_increment \<Rightarrow>
      case grown_population_checked (south_korea_data self1) sk_growth_increment of
           Inl e \<Rightarrow> Inl e
         | Inr sk \<Rightarrow>
      case grown_population_checked (north_korea_data self1) nk_growth_increment of
           Inl e \<Rightarrow> Inl e
         | Inr nk \<Rightarrow>
      let self2 = self1\<lparr> sk_population := sk, nk_population := nk \<rparr>;
          seconds_today = get_seconds_since_midnight_kst now_secs
      in case pf_int_truediv seconds_today (24 * 60 * 60) of
           Inl e \<Rightarrow> Inl e
         | Inr day_fraction \<Rightarrow>
      case events_today_checked (annual_births (south_korea_data self2)) day_fraction of
           Inl e \<Rightarrow> Inl e
         | Inr sk_births \<Rightarrow>
      case events_today_checked (annual_deaths (south_korea_data self2)) day_fraction of
           Inl e \<Rightarrow> Inl e
         | Inr sk_deaths \<Rightarrow>
      case events_today_checked (annual_births (north_korea_data self2)) day_fraction of
           Inl e \<Rightarrow> Inl e
         | Inr nk_births \<Rightarrow>
      case events_today_checked (annual_deaths (north_korea_data self2)) day_fraction of
           Inl e \<Rightarrow> Inl e
         | Inr nk_deaths \<Rightarrow>
      let self3 = self2\<lparr>
            self_sk_births_today := sk_births,
            self_sk_deaths_today := sk_deaths,
            self_nk_births_today := nk_births,
            self_nk_deaths_today := nk_deaths,
            last_update_time := current_time \<rparr>
      in Inr (self3,
              \<lparr> timestamp = current_time,
                south_korea_population = sk_population self3,
                north_korea_population = nk_population self3,
                total_population = sk_population self3 + nk_population self3,
                sk_births_today = self_sk_births_today self3,
                sk_deaths_today = self_sk_deaths_today self3,
                nk_births_today = self_nk_births_today self3,
                nk_deaths_today = self_nk_deaths_today self3,
                seconds_since_midnight_kst = seconds_today,
                recent_events = self_recent_events self3 \<rparr>))"

text \<open>
  For the proofs: the elapsed days and the population of one country that
  \<open>calculate_current_population\<close> computes, as functions of the time, with the constants of
  the source evaluated (lemmas \<open>elapsed_days_double_eq\<close> and \<open>grown_population_double\<close>).
\<close>

definition elapsed_days_double :: "rat \<Rightarrow> rat" where
  "elapsed_days_double now = fdiv (fsub now 1704067200) 86400"

definition population_double :: "int \<Rightarrow> rat \<Rightarrow> rat \<Rightarrow> int" where
  "population_double base rate now =
     py_int (fadd (float_of_int base)
               (fmul (fmul (fdiv rate 100) (float_of_int base))
                     (fdiv (elapsed_days_double now) (1461 / 4))))"

text \<open>The data within which no operation of the estimator overflows or loses an integer.\<close>

definition moderate :: "CountryData \<Rightarrow> bool" where
  "moderate cd =
     (0 \<le> base_population cd \<and> base_population cd < 2 ^ 53 \<and>
      \<bar>annual_births cd\<bar> < 2 ^ 53 \<and> \<bar>annual_deaths cd\<bar> < 2 ^ 53 \<and>
      \<bar>annual_growth_rate cd\<bar> \<le> 2 ^ 53)"


section \<open>The broadcaster\<close>

text \<open>
  The outbound tick message, lines 288 to 310, before \<^verbatim>\<open>json.dumps\<close>. The two nested
  dictionaries \<open>simulation_rates\<close> and \<open>event_indicators\<close> are flattened.
\<close>

record tick_message =
  msg_timestamp :: rat
  msg_south_korea_population :: int
  msg_north_korea_population :: int
  msg_total_population :: int
  msg_sk_births_today :: int
  msg_sk_deaths_today :: int
  msg_nk_births_today :: int
  msg_nk_deaths_today :: int
  msg_korea_time :: string
  msg_seconds_since_midnight :: int
  msg_is_resync :: bool
  msg_sk_births_per_sec :: rat
  msg_sk_deaths_per_sec :: rat
  msg_nk_births_per_sec :: rat
  msg_nk_deaths_per_sec :: rat
  msg_any_birth :: bool
  msg_any_death :: bool

definition add_client :: "'c PopulationManager \<Rightarrow> 'c \<Rightarrow> 'c PopulationManager" where
  "add_client self websocket =
     self\<lparr> connected_clients := connected_clients self @ [websocket] \<rparr>"

text \<open>\<^verbatim>\<open>list.remove(x)\<close> deletes the first occurrence and raises \<^verbatim>\<open>ValueError\<close> when there is
  none.\<close>

definition list_remove :: "'a list \<Rightarrow> 'a \<Rightarrow> py_error + 'a list" where
  "list_remove xs x = (if x \<in> set xs then Inr (remove1 x xs) else Inl ValueError)"

definition remove_client :: "'c PopulationManager \<Rightarrow> 'c \<Rightarrow> py_error + 'c PopulationManager" where
  "remove_client self websocket =
     (if websocket \<in> set (connected_clients self)
      then (case list_remove (connected_clients self) websocket of
              Inl e \<Rightarrow> Inl e
            | Inr cs \<Rightarrow> Inr (self\<lparr> connected_clients := cs \<rparr>))
      else Inr self)"

text \<open>
  The broadcaster is a coroutine: at each \<^verbatim>\<open>await client.send_text(...)\<close> the event loop may
  run the handler of a connection, \<^verbatim>\<open>websocket_endpoint\<close> in \<^verbatim>\<open>main.py\<close>, which calls
  \<^verbatim>\<open>add_client\<close> when a viewer connects (line 116) and \<^verbatim>\<open>remove_client\<close> in its \<^verbatim>\<open>finally\<close>
  clause when the viewer is gone (lines 157 and 158). Both act on the one list
  \<open>connected_clients\<close>.
\<close>

datatype 'c membership = Connects 'c | Disconnects 'c

fun membership_change ::
  "'c PopulationManager \<Rightarrow> 'c membership \<Rightarrow> py_error + 'c PopulationManager" where
  "membership_change self (Connects websocket) = Inr (add_client self websocket)"
| "membership_change self (Disconnects websocket) = remove_client self websocket"

fun membership_changes ::
  "'c PopulationManager \<Rightarrow> 'c membership list \<Rightarrow> py_error + 'c PopulationManager" where
  "membership_changes self [] = Inr self"
| "membership_changes self (change # rest) =
     (case membership_change self change of
        Inl e \<Rightarrow> Inl e
      | Inr self' \<Rightarrow> membership_changes self' rest)"

text \<open>
  The sending loop, lines 320 to 326: \<^verbatim>\<open>for client in self.connected_clients\<close> runs over the
  list itself, not over a copy. A Python list iterator keeps an index \<open>i\<close>; each step
  compares it with the length the list has at that moment, takes the element at \<open>i\<close> and
  advances. \<open>awaits\<close> gives, for each \<^verbatim>\<open>await\<close> of the loop in order, the membership changes
  that the event loop runs while the send is awaited (none for the awaits beyond the end
  of \<open>awaits\<close>). \<open>fails client\<close> says that \<^verbatim>\<open>send_text\<close> raises for this client during this
  tick; the \<^verbatim>\<open>except\<close> clause then records the client. \<open>delivered\<close> collects the clients
  whose send returned.
\<close>

function send_loop ::
  "('c \<Rightarrow> bool) \<Rightarrow> 'c membership list list \<Rightarrow> 'c PopulationManager \<Rightarrow> nat \<Rightarrow>
     'c list \<Rightarrow> 'c list \<Rightarrow> py_error + ('c PopulationManager \<times> 'c list \<times> 'c list)" where
  "send_loop fails [] self i delivered disconnected_clients =
     (if i < length (connected_clients self)
      then
        let client = connected_clients self ! i
        in if fails client
           then send_loop fails [] self (Suc i) delivered (disconnected_clients @ [client])
           else send_loop fails [] self (Suc i) (delivered @ [client]) disconnected_clients
      else Inr (self, delivered, disconnected_clients))"
| "send_loop fails (changes # awaits) self i delivered disconnected_clients =
     (if i < length (connected_clients self)
      then
        let client = connected_clients self ! i
        in (case membership_changes self changes of
              Inl e \<Rightarrow> Inl e
            | Inr self' \<Rightarrow>
                if fails client
                then send_loop fails awaits self' (Suc i) delivered
                       (disconnected_clients @ [client])
                else send_loop fails awaits self' (Suc i) (delivered @ [client])
                       disconnected_clients)
      else Inr (self, delivered, disconnected_clients))"
  by pat_completeness auto
termination
  by (relation "measures [\<lambda>(fails, awaits, self, i, delivered, disconnected_clients).
                            length awaits,
                          \<lambda>(fails, awaits, self, i, delivered, disconnected_clients).
                            length (connected_clients self) - i]") auto

declare send_loop.simps [simp del]

text \<open>The removal loop, lines 329 and 330.\<close>

fun remove_loop :: "'c PopulationManager \<Rightarrow> 'c list \<Rightarrow> py_error + 'c PopulationManager" where
  "remove_loop self [] = Inr self"
| "remove_loop self (client # rest) =
     (case remove_client self client of
        Inl e \<Rightarrow> Inl e
      | Inr self' \<Rightarrow> remove_loop self' rest)"

text \<open>
  \<open>broadcast_update\<close>. \<open>now_kst\<close> is the clock reading formatted into \<open>korea_time\<close>,
  \<open>fails\<close> and \<open>awaits\<close> are as in \<open>send_loop\<close>. The result is the manager afterwards and,
  unless the function returned early, the message with the clients it was delivered to.
\<close>

definition broadcast_update ::
  "'c PopulationManager \<Rightarrow> PopulationState \<Rightarrow> py_datetime \<Rightarrow> ('c \<Rightarrow> bool) \<Rightarrow>
     'c membership list list \<Rightarrow>
     py_error + ('c PopulationManager \<times> (tick_message \<times> 'c list) option)" where
  "broadcast_update self state now_kst fails awaits =
     (if connected_clients self = [] then Inr (self, None)
      else
        let current_time = timestamp state;
            is_resync_time =
              (resync_interval self \<le> fsub current_time (last_resync_time self));
            self1 = (if is_resync_time
                     then self\<lparr> last_resync_time := current_time \<rparr> else self);
            message =
              \<lparr> msg_timestamp = timestamp state,
                msg_south_korea_population = south_korea_population state,
                msg_north_korea_population = north_korea_population state,
                msg_total_population = total_population state,
                msg_sk_births_today = sk_births_today state,
                msg_sk_deaths_today = sk_deaths_today state,
                msg_nk_births_today = nk_births_today state,
                msg_nk_deaths_today = nk_deaths_today state,
                msg_korea_time = strftime_hms now_kst,
                msg_seconds_since_midnight = seconds_since_midnight_kst state,
                msg_is_resync = is_resync_time,
                msg_sk_births_per_sec = sk_births_per_sec self1,
                msg_sk_deaths_per_sec = sk_deaths_per_sec self1,
                msg_nk_births_per_sec = nk_births_per_sec self1,
                msg_nk_deaths_per_sec = nk_deaths_per_sec self1,
                msg_any_birth = False,
                msg_any_death = False \<rparr>
        in (case send_loop fails awaits self1 0 [] [] of
              Inl e \<Rightarrow> Inl e
            | Inr (self2, delivered, disconnected_clients) \<Rightarrow>
                (case remove_loop self2 disconnected_clients of
                   Inl e \<Rightarrow> Inl e
                 | Inr self3 \<Rightarrow> Inr (self3, Some (message, delivered)))))"

section \<open>The administrative update\<close>

text \<open>
  The dictionary \<open>new_data\<close>: one optional value for each key that \<open>update_base_data\<close>
  reads, \<open>None\<close> when the key is absent. \<open>dict_get\<close> is \<^verbatim>\<open>new_data.get(key, default)\<close>.
\<close>

record update_dict =
  new_population :: "int option"
  new_year :: "int option"
  new_date :: "string option"
  new_births :: "int option"
  new_deaths :: "int option"
  new_growth_rate :: "rat option"

definition dict_get :: "'a option \<Rightarrow> 'a \<Rightarrow> 'a" where
  "dict_get entry dflt = (case entry of Some v \<Rightarrow> v | None \<Rightarrow> dflt)"

text \<open>\<^verbatim>\<open>str.lower\<close>, on ASCII.\<close>

definition lower_char :: "char \<Rightarrow> char" where
  "lower_char c =
     (let n = (of_char c :: nat) in if 65 \<le> n \<and> n \<le> 90 then char_of (n + 32) else c)"

definition py_lower :: "string \<Rightarrow> string" where
  "py_lower s = map lower_char s"

definition update_fields :: "CountryData \<Rightarrow> update_dict \<Rightarrow> CountryData" where
  "update_fields cd new_data =
     cd\<lparr> base_population := dict_get (new_population new_data) (base_population cd),
         base_year := dict_get (new_year new_data) (base_year cd),
         base_date := dict_get (new_date new_data) (base_date cd),
         annual_births := dict_get (new_births new_data) (annual_births cd),
         annual_deaths := dict_get (new_deaths new_data) (annual_deaths cd),
         annual_growth_rate := dict_get (new_growth_rate new_data) (annual_growth_rate cd) \<rparr>"

definition update_base_data ::
  "'c PopulationManager \<Rightarrow> string \<Rightarrow> update_dict \<Rightarrow> 'c PopulationManager" where
  "update_base_data self country new_data =
     (if py_lower country = ''south_korea'' then
        let cd = update_fields (south_korea_data self) new_data;
            rates = calculate_birth_death_rates_per_second cd
        in self\<lparr> south_korea_data := cd,
                 sk_daily_increment := Some (calculate_daily_increment cd),
                 sk_births_per_sec := fst rates,
                 sk_deaths_per_sec := snd rates \<rparr>
      else if py_lower country = ''north_korea'' then
        let cd = update_fields (north_korea_data self) new_data;
            rates = calculate_birth_death_rates_per_second cd
        in self\<lparr> north_korea_data := cd,
                 nk_daily_increment := Some (calculate_daily_increment cd),
                 nk_births_per_sec := fst rates,
                 nk_deaths_per_sec := snd rates \<rparr>
      else self)"

section \<open>Executions\<close>

text \<open>
  What happens to the one manager of the process: an iteration of the loop of
  \<open>start_broadcasting\<close> with its clock readings, the behaviour of the sends and the
  connections and disconnections handled while the sends are awaited; a connection or
  disconnection between two iterations; a call of \<open>calculate_current_population\<close> from
  elsewhere; an administrative update. The loop never returns; an execution is a finite
  prefix, and its trace has one entry for each iteration.
\<close>

datatype 'c event =
    Tick rat py_datetime py_datetime py_datetime "'c \<Rightarrow> bool" "'c membership list list"
  | AddClient 'c
  | RemoveClient 'c
  | Calculate rat py_datetime py_datetime
  | UpdateBaseData string update_dict

type_synonym 'c trace = "(tick_message \<times> 'c list) option list"

definition tick ::
  "'c PopulationManager \<Rightarrow> rat \<Rightarrow> py_datetime \<Rightarrow> py_datetime \<Rightarrow> py_datetime \<Rightarrow> ('c \<Rightarrow> bool) \<Rightarrow>
     'c membership list list \<Rightarrow>
     py_error + ('c PopulationManager \<times> (tick_message \<times> 'c list) option)" where
  "tick self current_time now_date now_secs now_msg fails awaits =
     (let r = calculate_current_population self current_time now_date now_secs
      in broadcast_update (fst r) (snd r) now_msg fails awaits)"

fun run :: "'c PopulationManager \<Rightarrow> 'c event list \<Rightarrow> py_error + ('c PopulationManager \<times> 'c trace)" where
  "run self [] = Inr (self, [])"
| "run self (Tick current_time now_date now_secs now_msg fails awaits # evs) =
     (case tick self current_time now_date now_secs now_msg fails awaits of
        Inl e \<Rightarrow> Inl e
      | Inr (self', out) \<Rightarrow>
          (case run self' evs of
             Inl e \<Rightarrow> Inl e
           | Inr (self'', tr) \<Rightarrow> Inr (self'', out # tr)))"
| "run self (AddClient c # evs) = run (add_client self c) evs"
| "run self (RemoveClient c # evs) =
     (case remove_client self c of Inl e \<Rightarrow> Inl e | Inr self' \<Rightarrow> run self' evs)"
| "run self (Calculate current_time now_date now_secs # evs) =
     run (fst (calculate_current_population self current_time now_date now_secs)) evs"
| "run self (UpdateBaseData country new_data # evs) =
     run (update_base_data self country new_data) evs"


text \<open>
  A time on the grid of \<open>2 powi -22\<close> seconds. Every double of magnitude \<open>2 ^ 30\<close> or more is
  such a value, so every reading of \<^verbatim>\<open>time.time()\<close> since 2004 is one.
\<close>

definition clock_value :: "rat \<Rightarrow> bool" where
  "clock_value t = (of_int \<lfloor>t * 2 ^ 22\<rfloor> = t * 2 ^ 22)"


text \<open>The resync flags of a run of ticks that all find a viewer, from the last resync time
  and the readings of the clock (lines 281 to 285).\<close>

fun resync_flags :: "rat \<Rightarrow> rat list \<Rightarrow> bool list" where
  "resync_flags last_resync [] = []"
| "resync_flags last_resync (t # ts) =
     (let is_resync_time = (30 \<le> fsub t last_resync)
      in is_resync_time # resync_flags (if is_resync_time then t else last_resync) ts)"

section \<open>The formulas of the specification\<close>

text \<open>
  The specification measures elapsed time from the fixed epoch 2024-01-01T00:00:00Z, which is
  Unix time 1704067200, in days of 86400 seconds, and gives the population as
  \<open>base_population + (annual_growth_rate / 100) * base_population * (elapsed_days / 365.25)\<close>
  truncated to an integer, and the count of births or deaths of today as
  \<open>floor (annual * day_fraction / 365.25)\<close> with \<open>day_fraction\<close> the seconds since local
  midnight over 86400. These definitions follow those words; the arithmetic is that of the
  rational numbers, without rounding.
\<close>

definition spec_elapsed_days :: "rat \<Rightarrow> rat" where
  "spec_elapsed_days now = (now - 1704067200) / 86400"

definition spec_population_value :: "int \<Rightarrow> rat \<Rightarrow> rat \<Rightarrow> rat" where
  "spec_population_value base rate now =
     of_int base + (rate / 100) * of_int base * (spec_elapsed_days now / (1461 / 4))"

text \<open>Truncation to an integer drops the fractional part.\<close>

definition truncated :: "rat \<Rightarrow> int" where
  "truncated x = (if x < 0 then - \<lfloor>- x\<rfloor> else \<lfloor>x\<rfloor>)"

definition spec_population :: "int \<Rightarrow> rat \<Rightarrow> rat \<Rightarrow> int" where
  "spec_population base rate now = truncated (spec_population_value base rate now)"

definition spec_day_fraction :: "int \<Rightarrow> rat" where
  "spec_day_fraction seconds_since_local_midnight = of_int seconds_since_local_midnight / 86400"

definition spec_events_value :: "int \<Rightarrow> int \<Rightarrow> rat" where
  "spec_events_value annual seconds_since_local_midnight =
     of_int annual * spec_day_fraction seconds_since_local_midnight / (1461 / 4)"

definition spec_events_today :: "int \<Rightarrow> int \<Rightarrow> int" where
  "spec_events_today annual seconds_since_local_midnight =
     \<lfloor>spec_events_value annual seconds_since_local_midnight\<rfloor>"

text \<open>
  The formulas as far as double precision follows them: the result is the truncation of a
  number close to the exact value (within \<open>1 / 256\<close> for a population, \<open>1 / 2 ^ 19\<close> for a
  count of events), so it is the value that the specification writes unless the exact value
  is that close to an integer.
\<close>

definition population_agrees :: "int \<Rightarrow> rat \<Rightarrow> rat \<Rightarrow> int \<Rightarrow> bool" where
  "population_agrees base rate now population =
     (let v = spec_population_value base rate now
      in truncated (v - 1 / 256) \<le> population \<and> population \<le> truncated (v + 1 / 256) \<and>
         (truncated (v - 1 / 256) = truncated (v + 1 / 256) \<longrightarrow>
            population = spec_population base rate now))"

definition events_agree :: "int \<Rightarrow> int \<Rightarrow> int \<Rightarrow> bool" where
  "events_agree annual seconds_since_local_midnight events =
     (let v = spec_events_value annual seconds_since_local_midnight
      in truncated (v - 1 / 2 ^ 19) \<le> events \<and> events \<le> truncated (v + 1 / 2 ^ 19) \<and>
         (0 \<le> annual \<longrightarrow> \<lfloor>v - 1 / 2 ^ 19\<rfloor> = \<lfloor>v + 1 / 2 ^ 19\<rfloor> \<longrightarrow>
            events = spec_events_today annual seconds_since_local_midnight))"


section \<open>Example inputs\<close>

text \<open>The reading of the clock in UTC+9 \<open>i\<close> seconds after the epoch, for \<open>i\<close> below 3600.\<close>

definition kst_after_epoch :: "int \<Rightarrow> py_datetime" where
  "kst_after_epoch i =
     \<lparr> year = 2024, month = 1, day = 1, hour = 9, minute = i div 60, second = i mod 60,
       microsecond = 0, utcoffset = 32400 \<rparr>"

text \<open>The readings 365.25 days after the epoch and one day before it.\<close>

definition one_year_kst :: py_datetime where
  "one_year_kst = \<lparr> year = 2024, month = 12, day = 31, hour = 15, minute = 0, second = 0,
                   microsecond = 0, utcoffset = 32400 \<rparr>"

definition day_before_kst :: py_datetime where
  "day_before_kst = \<lparr> year = 2023, month = 12, day = 31, hour = 9, minute = 0, second = 0,
                     microsecond = 0, utcoffset = 32400 \<rparr>"

definition example_manager :: "nat PopulationManager" where
  "example_manager = add_client (init 1704067200 1704067200 (kst_after_epoch 0)) 7"

definition growth_only :: update_dict where
  "growth_only =
     \<lparr> new_population = None, new_year = None, new_date = None, new_births = None,
       new_deaths = None, new_growth_rate = Some (float_lit (- (3 / 10))) \<rparr>"

definition noon_kst :: py_datetime where
  "noon_kst = \<lparr> year = 2024, month = 6, day = 15, hour = 12, minute = 0, second = 0,
               microsecond = 0, utcoffset = 32400 \<rparr>"

definition few_births :: update_dict where
  "few_births =
     \<lparr> new_population = Some 51628117, new_year = Some 2024,
       new_date = Some ''2024-01-01T00:00:00Z'', new_births = Some 7200,
       new_deaths = None, new_growth_rate = None \<rparr>"

definition huge_rate :: update_dict where
  "huge_rate =
     \<lparr> new_population = Some 51628117, new_year = Some 2024,
       new_date = Some ''2024-01-01T00:00:00Z'', new_births = None,
       new_deaths = None, new_growth_rate = Some (float_lit (10 ^ 308)) \<rparr>"

definition negative_population :: update_dict where
  "negative_population =
     \<lparr> new_population = Some (- 1000000), new_year = Some 2024,
       new_date = Some ''2024-01-01T00:00:00Z'', new_births = None,
       new_deaths = None, new_growth_rate = None \<rparr>"

definition no_viewers :: "nat PopulationManager" where
  "no_viewers = init 1704067200 1704067200 (kst_after_epoch 0)"



definition three_viewers :: "nat PopulationManager" where
  "three_viewers = add_client (add_client (add_client no_viewers 1) 2) 3"

definition later_tick :: "nat event list" where
  "later_tick = [Tick 1704067231 (kst_after_epoch 31) (kst_after_epoch 31) (kst_after_epoch 31) (\<lambda>c. False) []]"

section \<open>Rounding to the nearest double\<close>

lemma rhe_of_int: "round_half_even (of_int n) = n"
  by (simp add: round_half_even_def)

lemma rhe_cases: "round_half_even x = \<lfloor>x\<rfloor> \<or> round_half_even x = \<lfloor>x\<rfloor> + 1"
  by (simp add: round_half_even_def Let_def)

lemma rhe_mono: "x \<le> y \<Longrightarrow> round_half_even x \<le> round_half_even y"
proof -
  assume xy: "x \<le> y"
  have fl: "\<lfloor>x\<rfloor> \<le> \<lfloor>y\<rfloor>" using xy by (rule floor_mono)
  show ?thesis
  proof (cases "\<lfloor>x\<rfloor> = \<lfloor>y\<rfloor>")
    case True
    then have "x - of_int \<lfloor>x\<rfloor> \<le> y - of_int \<lfloor>y\<rfloor>" using xy by simp
    with True show ?thesis by (auto simp: round_half_even_def Let_def)
  next
    case False
    with fl have "\<lfloor>x\<rfloor> + 1 \<le> \<lfloor>y\<rfloor>" by simp
    moreover have "round_half_even x \<le> \<lfloor>x\<rfloor> + 1" using rhe_cases [of x] by auto
    moreover have "\<lfloor>y\<rfloor> \<le> round_half_even y" using rhe_cases [of y] by auto
    ultimately show ?thesis by linarith
  qed
qed

lemma rhe_uminus: "round_half_even (- x) = - round_half_even x"
proof (cases "x \<in> \<int>")
  case True
  then obtain n where "x = of_int n" by (auto elim: Ints_cases)
  then show ?thesis using rhe_of_int [of "- n"] rhe_of_int [of n] by simp
next
  case False
  then have ne: "x \<noteq> of_int \<lfloor>x\<rfloor>" by (metis Ints_of_int)
  then have fl: "\<lfloor>- x\<rfloor> = - \<lfloor>x\<rfloor> - 1"
    by (simp add: floor_minus ceiling_altdef)
  have d: "- x - of_int \<lfloor>- x\<rfloor> = 1 - (x - of_int \<lfloor>x\<rfloor>)" by (simp add: fl)
  show ?thesis
    unfolding round_half_even_def Let_def d
    using ne by (auto simp: fl)
qed

lemma exponent_up_bounds:
  "1 \<le> x \<Longrightarrow> 0 \<le> exponent_up x \<and> 2 powi exponent_up x \<le> x \<and> x < 2 powi (exponent_up x + 1)"
proof (induction x rule: exponent_up.induct)
  case (1 x)
  show ?case
  proof (cases "2 \<le> x")
    case True
    then have "1 \<le> x / 2" by simp
    from "1.IH" [OF True this] True show ?thesis
      by (subst (1 2 3) exponent_up.simps) (simp add: power_int_add field_simps)
  next
    case False
    with "1.prems" show ?thesis
      by (subst (1 2 3) exponent_up.simps) simp
  qed
qed

lemma exponent_down_bounds:
  "0 < x \<Longrightarrow> x < 2 \<Longrightarrow>
     - int n \<le> exponent_down n x \<and> exponent_down n x \<le> 0 \<and>
     x < 2 powi (exponent_down n x + 1) \<and>
     (- int n < exponent_down n x \<longrightarrow> 2 powi exponent_down n x \<le> x)"
proof (induction n arbitrary: x)
  case 0
  then show ?case by simp
next
  case (Suc n)
  show ?case
  proof (cases "x < 1")
    case True
    then have "0 < 2 * x" "2 * x < 2" using Suc.prems by simp_all
    from Suc.IH [OF this] True show ?thesis
      by (auto simp: power_int_diff power_int_add field_simps)
  next
    case False
    with Suc.prems show ?thesis by simp
  qed
qed

lemma float_exponent_bounds:
  assumes "x \<noteq> 0"
  shows "- 1022 \<le> float_exponent x"
    and "\<bar>x\<bar> < 2 powi (float_exponent x + 1)"
    and "- 1022 < float_exponent x \<Longrightarrow> 2 powi float_exponent x \<le> \<bar>x\<bar>"
proof -
  have pos: "0 < \<bar>x\<bar>" using assms by simp
  show "- 1022 \<le> float_exponent x"
    using exponent_up_bounds [of "\<bar>x\<bar>"] exponent_down_bounds [OF pos, of 1022]
    by (auto simp: float_exponent_def)
  show "\<bar>x\<bar> < 2 powi (float_exponent x + 1)"
    using exponent_up_bounds [of "\<bar>x\<bar>"] exponent_down_bounds [OF pos, of 1022]
    by (auto simp: float_exponent_def)
  show "- 1022 < float_exponent x \<Longrightarrow> 2 powi float_exponent x \<le> \<bar>x\<bar>"
    using exponent_up_bounds [of "\<bar>x\<bar>"] exponent_down_bounds [OF pos, of 1022]
    by (auto simp: float_exponent_def)
qed

lemma float_exponent_uminus: "float_exponent (- x) = float_exponent x"
  by (simp add: float_exponent_def)

lemma float_exponent_unique:
  assumes "x \<noteq> 0" "- 1022 \<le> e" "\<bar>x\<bar> < 2 powi (e + 1)" "- 1022 < e \<Longrightarrow> 2 powi e \<le> \<bar>x\<bar>"
  shows "float_exponent x = e"
proof (rule antisym)
  show "float_exponent x \<le> e"
  proof (rule ccontr)
    assume "\<not> float_exponent x \<le> e"
    then have lt: "e + 1 \<le> float_exponent x" by simp
    then have "- 1022 < float_exponent x" using assms(2) by simp
    then have "2 powi float_exponent x \<le> \<bar>x\<bar>" by (rule float_exponent_bounds(3) [OF assms(1)])
    moreover have "(2::rat) powi (e + 1) \<le> 2 powi float_exponent x"
      using lt by (intro power_int_increasing) simp_all
    ultimately show False using assms(3) by simp
  qed
  show "e \<le> float_exponent x"
  proof (rule ccontr)
    assume "\<not> e \<le> float_exponent x"
    then have lt: "float_exponent x + 1 \<le> e" by simp
    then have "- 1022 < e" using float_exponent_bounds(1) [OF assms(1)] by simp
    then have "2 powi e \<le> \<bar>x\<bar>" by (rule assms(4))
    moreover have "(2::rat) powi (float_exponent x + 1) \<le> 2 powi e"
      using lt by (intro power_int_increasing) simp_all
    ultimately show False using float_exponent_bounds(2) [OF assms(1)] by simp
  qed
qed

lemma float_exponent_mono:
  assumes "0 < x" "x \<le> y"
  shows "float_exponent x \<le> float_exponent y"
proof (rule ccontr)
  assume "\<not> float_exponent x \<le> float_exponent y"
  then have lt: "float_exponent y + 1 \<le> float_exponent x" by simp
  have x0: "x \<noteq> 0" and y0: "y \<noteq> 0" using assms by simp_all
  have "- 1022 < float_exponent x" using lt float_exponent_bounds(1) [OF y0] by simp
  then have "2 powi float_exponent x \<le> \<bar>x\<bar>" by (rule float_exponent_bounds(3) [OF x0])
  moreover have "(2::rat) powi (float_exponent y + 1) \<le> 2 powi float_exponent x"
    using lt by (intro power_int_increasing) simp_all
  ultimately show False using float_exponent_bounds(2) [OF y0] assms by simp
qed

lemma rd_0: "rd 0 = 0"
  by (simp add: rd_def)

lemma rd_uminus: "rd (- x) = - rd x"
  by (simp add: rd_def float_exponent_uminus rhe_uminus Let_def)

lemma rd_pos_bounds:
  assumes "0 < x"
  shows "0 \<le> rd x"
    and "rd x \<le> 2 powi (float_exponent x + 1)"
    and "- 1022 < float_exponent x \<Longrightarrow> 2 powi float_exponent x \<le> rd x"
proof -
  define e where "e = float_exponent x"
  define q :: rat where "q = 2 powi (e - 52)"
  have x0: "x \<noteq> 0" using assms by simp
  have q0: "0 < q" by (simp add: q_def zero_less_power_int)
  have rdx: "rd x = of_int (round_half_even (x / q)) * q"
    using x0 by (simp add: rd_def q_def e_def Let_def)
  have up: "2 powi (e + 1) = 2 ^ 53 * q"
    using power_int_add [of "2::rat" "e - 52" 53] by (simp add: q_def ac_simps)
  have lo: "2 powi e = 2 ^ 52 * q"
    using power_int_add [of "2::rat" "e - 52" 52] by (simp add: q_def ac_simps)
  have "0 \<le> x / q" using assms q0 by simp
  then have "round_half_even 0 \<le> round_half_even (x / q)" by (rule rhe_mono)
  then have "0 \<le> round_half_even (x / q)" using rhe_of_int [of 0] by simp
  then show "0 \<le> rd x" using q0 by (simp add: rdx)
  have "x < 2 ^ 53 * q"
    using float_exponent_bounds(2) [OF x0] assms up by (simp add: e_def)
  then have "x / q \<le> of_int (2 ^ 53)" using q0 by (simp add: field_simps)
  then have "round_half_even (x / q) \<le> round_half_even (of_int (2 ^ 53))" by (rule rhe_mono)
  then have "round_half_even (x / q) \<le> 2 ^ 53" by (simp only: rhe_of_int)
  then have "(of_int (round_half_even (x / q)) :: rat) \<le> of_int (2 ^ 53)"
    by (simp only: of_int_le_iff)
  then have "of_int (round_half_even (x / q)) * q \<le> 2 ^ 53 * q"
    using q0 by simp
  then show "rd x \<le> 2 powi (float_exponent x + 1)"
    using up by (simp add: rdx e_def)
  show "2 powi float_exponent x \<le> rd x" if "- 1022 < float_exponent x"
  proof -
    have "2 ^ 52 * q \<le> x"
      using float_exponent_bounds(3) [OF x0 that] assms lo by (simp add: e_def)
    then have "of_int (2 ^ 52) \<le> x / q" using q0 by (simp add: field_simps)
    then have "round_half_even (of_int (2 ^ 52)) \<le> round_half_even (x / q)" by (rule rhe_mono)
    then have "2 ^ 52 \<le> round_half_even (x / q)" by (simp only: rhe_of_int)
    then have "(of_int (2 ^ 52) :: rat) \<le> of_int (round_half_even (x / q))"
      by (simp only: of_int_le_iff)
    then have "2 ^ 52 * q \<le> of_int (round_half_even (x / q)) * q"
      using q0 by simp
    then show ?thesis using lo by (simp add: rdx e_def)
  qed
qed

lemma rd_mono_pos:
  assumes "0 < x" "x \<le> y"
  shows "rd x \<le> rd y"
proof -
  have y: "0 < y" using assms by simp
  have le: "float_exponent x \<le> float_exponent y" using assms by (rule float_exponent_mono)
  show ?thesis
  proof (cases "float_exponent x = float_exponent y")
    case True
    define q :: rat where "q = 2 powi (float_exponent y - 52)"
    have q0: "0 < q" by (simp add: q_def zero_less_power_int)
    have "x / q \<le> y / q" using assms q0 by (simp add: divide_right_mono)
    then have "round_half_even (x / q) \<le> round_half_even (y / q)" by (rule rhe_mono)
    then have "(of_int (round_half_even (x / q)) :: rat) * q \<le> of_int (round_half_even (y / q)) * q"
      using q0 by simp
    then show ?thesis using assms y True by (simp add: rd_def q_def Let_def)
  next
    case False
    with le have lt: "float_exponent x + 1 \<le> float_exponent y" by simp
    have "- 1022 < float_exponent y"
      using lt float_exponent_bounds(1) [of x] assms by simp
    then have "2 powi float_exponent y \<le> rd y" by (rule rd_pos_bounds(3) [OF y])
    moreover have "(2::rat) powi (float_exponent x + 1) \<le> 2 powi float_exponent y"
      using lt by (intro power_int_increasing) simp_all
    moreover note rd_pos_bounds(2) [OF assms(1)]
    ultimately show ?thesis by linarith
  qed
qed

lemma rd_nonneg: "0 \<le> x \<Longrightarrow> 0 \<le> rd x"
  using rd_pos_bounds(1) [of x] by (cases "x = 0") (simp_all add: rd_0)

lemma rd_nonpos: "x \<le> 0 \<Longrightarrow> rd x \<le> 0"
  using rd_nonneg [of "- x"] by (simp add: rd_uminus)

lemma rd_mono:
  assumes "x \<le> y"
  shows "rd x \<le> rd y"
proof -
  consider "0 < x" | "x \<le> 0" "0 \<le> y" | "y < 0" by linarith
  then show ?thesis
  proof cases
    case 1
    then show ?thesis using assms by (rule rd_mono_pos)
  next
    case 2
    then show ?thesis using rd_nonpos [of x] rd_nonneg [of y] by linarith
  next
    case 3
    then have "0 < - y" "- y \<le> - x" using assms by simp_all
    then have "rd (- y) \<le> rd (- x)" by (rule rd_mono_pos)
    then show ?thesis by (simp add: rd_uminus)
  qed
qed

lemma rd_exact:
  assumes k: "\<bar>k\<bar> < 2 ^ 53" and j: "- 1074 \<le> j"
  shows "rd (of_int k * 2 powi j) = of_int k * 2 powi j"
proof (cases "k = 0")
  case True
  then show ?thesis by (simp add: rd_0)
next
  case False
  define x :: rat where "x = of_int k * 2 powi j"
  define e where "e = float_exponent x"
  have x0: "x \<noteq> 0" using False by (simp add: x_def)
  have absx: "\<bar>x\<bar> = of_int \<bar>k\<bar> * 2 powi j"
    by (simp add: x_def abs_mult)
  have "(of_int \<bar>k\<bar> :: rat) < of_int (2 ^ 53)" using k by (simp only: of_int_less_iff)
  then have "\<bar>x\<bar> < 2 ^ 53 * 2 powi j"
    by (simp add: absx zero_less_power_int)
  also have "\<dots> = 2 powi (j + 53)"
    using power_int_add [of "2::rat" j 53] by simp
  finally have ub: "\<bar>x\<bar> < 2 powi (j + 53)" .
  have le: "e \<le> j + 52"
  proof (cases "- 1022 < e")
    case True
    then have "2 powi e \<le> \<bar>x\<bar>"
      unfolding e_def by (rule float_exponent_bounds(3) [OF x0])
    with ub have "(2::rat) powi e < 2 powi (j + 53)" by simp
    then have "e < j + 53"
      by (metis linorder_not_le one_le_numeral power_int_increasing)
    then show ?thesis by simp
  next
    case False
    then show ?thesis using j by simp
  qed
  define n where "n = nat (j - (e - 52))"
  have jn: "j = (e - 52) + int n" using le by (simp add: n_def)
  have pw: "(2::rat) powi j = 2 powi (e - 52) * 2 ^ n"
    by (subst jn, subst power_int_add) (simp_all add: power_int_of_nat)
  have q0: "(2::rat) powi (e - 52) \<noteq> 0" by simp
  have "x / 2 powi (e - 52) = of_int (k * 2 ^ n)"
    using q0 by (simp add: x_def pw)
  then have "round_half_even (x / 2 powi (e - 52)) = k * 2 ^ n"
    by (simp only: rhe_of_int)
  then have "rd x = of_int (k * 2 ^ n) * 2 powi (e - 52)"
    using x0 by (simp add: rd_def e_def Let_def)
  also have "\<dots> = x" by (simp add: x_def pw)
  finally show ?thesis by (simp add: x_def)
qed

lemma rd_of_int: "\<bar>n\<bar> < 2 ^ 53 \<Longrightarrow> rd (of_int n) = of_int n"
  using rd_exact [of n 0] by simp

lemma rd_pow2: "rd (2 ^ k) = 2 ^ k"
  using rd_exact [of 1 "int k"] by (simp add: power_int_of_nat)

lemma rhe_err: "\<bar>of_int (round_half_even y) - y\<bar> \<le> 1 / 2"
proof -
  have "of_int \<lfloor>y\<rfloor> \<le> y" "y < of_int \<lfloor>y\<rfloor> + 1" by linarith+
  then show ?thesis
    by (auto simp: round_half_even_def Let_def abs_le_iff)
qed

lemma rd_err:
  assumes "\<bar>x\<bar> \<le> M" "1 \<le> M"
  shows "\<bar>rd x - x\<bar> \<le> M / 2 ^ 53"
proof (cases "x = 0")
  case True
  then show ?thesis using assms by (simp add: rd_0)
next
  case False
  define e where "e = float_exponent x"
  define q :: rat where "q = 2 powi (e - 52)"
  have q0: "0 < q" by (simp add: q_def zero_less_power_int)
  have rdx: "rd x = of_int (round_half_even (x / q)) * q"
    using False by (simp add: rd_def q_def e_def Let_def)
  have "rd x - x = (of_int (round_half_even (x / q)) - x / q) * q"
    using q0 by (simp add: rdx field_simps)
  then have "\<bar>rd x - x\<bar> = \<bar>of_int (round_half_even (x / q)) - x / q\<bar> * q"
    using q0 by (simp add: abs_mult)
  also have "\<dots> \<le> 1 / 2 * q"
    using rhe_err [of "x / q"] q0 by (intro mult_right_mono) simp_all
  finally have err: "\<bar>rd x - x\<bar> \<le> q / 2" by simp
  have lo: "2 powi e = 2 ^ 52 * q"
    using power_int_add [of "2::rat" "e - 52" 52] by (simp add: q_def ac_simps)
  show ?thesis
  proof (cases "- 1022 < e")
    case True
    then have "2 powi e \<le> \<bar>x\<bar>"
      unfolding e_def by (rule float_exponent_bounds(3) [OF False])
    then have "2 ^ 52 * q \<le> M" using assms(1) lo by simp
    then have "q / 2 \<le> M / 2 ^ 53" by (simp add: field_simps)
    with err show ?thesis by simp
  next
    case False
    then have "e - 52 \<le> - 53" by simp
    then have "q \<le> 2 powi (- 53)"
      unfolding q_def by (intro power_int_increasing) simp_all
    then have "q / 2 \<le> 1 / 2 ^ 53" by (simp add: power_int_minus field_simps)
    also have "\<dots> \<le> M / 2 ^ 53" using assms(2) by (simp add: field_simps)
    finally show ?thesis using err by simp
  qed
qed

lemma rd_abs_le:
  assumes "\<bar>x\<bar> \<le> 2 ^ k"
  shows "\<bar>rd x\<bar> \<le> 2 ^ k"
proof -
  have p: "rd (2 ^ k) = 2 ^ k"
    using rd_exact [of 1 "int k"] by (simp add: power_int_of_nat)
  have "- (2 ^ k) \<le> x" "x \<le> 2 ^ k" using assms by (simp_all add: abs_le_iff)
  then have "rd (- (2 ^ k)) \<le> rd x" "rd x \<le> rd (2 ^ k)" by (simp_all add: rd_mono)
  then show ?thesis by (simp add: rd_uminus p abs_le_iff)
qed

lemma abs_of_int_le: "\<bar>n\<bar> \<le> 2 ^ k \<Longrightarrow> \<bar>(of_int n :: rat)\<bar> \<le> 2 ^ k"
  by (metis of_int_abs of_int_le_iff of_int_numeral of_int_power)

lemma float_of_int_exact: "\<bar>n\<bar> < 2 ^ 53 \<Longrightarrow> float_of_int n = of_int n"
  unfolding float_of_int_def by (rule rd_of_int)

lemma abs_tri:
  fixes a b c :: rat
  shows "\<bar>a - b\<bar> \<le> d \<Longrightarrow> \<bar>b - c\<bar> \<le> e \<Longrightarrow> \<bar>a - c\<bar> \<le> d + e"
  by linarith

lemma abs_mult_le:
  fixes a b :: rat
  shows "\<bar>a\<bar> \<le> M \<Longrightarrow> \<bar>b\<bar> \<le> N \<Longrightarrow> \<bar>a * b\<bar> \<le> M * N"
  unfolding abs_mult by (intro mult_mono) (auto intro: order_trans [OF abs_ge_zero])

lemma abs_div_le:
  fixes a c :: rat
  shows "\<bar>a\<bar> \<le> M \<Longrightarrow> 0 < c \<Longrightarrow> \<bar>a / c\<bar> \<le> M / c"
  by (simp add: divide_right_mono)

lemma div_err:
  fixes a A c :: rat
  shows "\<bar>a - A\<bar> \<le> e \<Longrightarrow> 0 < c \<Longrightarrow> \<bar>a / c - A / c\<bar> \<le> e / c"
proof -
  assume e: "\<bar>a - A\<bar> \<le> e" and c: "0 < c"
  have "a / c - A / c = (a - A) / c" by (simp add: diff_divide_distrib)
  then have "\<bar>a / c - A / c\<bar> = \<bar>a - A\<bar> / c" using c by simp
  also have "\<dots> \<le> e / c" using e c by (simp add: divide_right_mono)
  finally show ?thesis .
qed

lemma mult_err:
  fixes a b A B :: rat
  assumes "\<bar>a - A\<bar> \<le> ea" "\<bar>b - B\<bar> \<le> eb" "\<bar>A\<bar> \<le> MA" "\<bar>b\<bar> \<le> Mb"
  shows "\<bar>a * b - A * B\<bar> \<le> ea * Mb + MA * eb"
proof -
  have "a * b - A * B = (a - A) * b + A * (b - B)" by (simp add: algebra_simps)
  then have "\<bar>a * b - A * B\<bar> \<le> \<bar>a - A\<bar> * \<bar>b\<bar> + \<bar>A\<bar> * \<bar>b - B\<bar>"
    by (metis abs_mult abs_triangle_ineq)
  also have "\<dots> \<le> ea * Mb + MA * eb"
    using assms by (intro add_mono mult_mono) (auto intro: order_trans [OF abs_ge_zero])
  finally show ?thesis .
qed

lemma pow_less_1024: "k < 1024 \<Longrightarrow> (2::rat) ^ k < 2 ^ 1024"
  by (rule power_strict_increasing) simp_all

lemma pf_round_fin:
  assumes "\<bar>x\<bar> \<le> 2 ^ k" "k < 1024"
  shows "pf_round x = Fin (rd x)"
proof -
  have "\<bar>rd x\<bar> \<le> 2 ^ k" using assms(1) by (rule rd_abs_le)
  then have "\<bar>rd x\<bar> < 2 ^ 1024" using pow_less_1024 [OF assms(2)] by simp
  then show ?thesis by (simp add: pf_round_def Let_def abs_less_iff)
qed

lemma pf_of_int_fin:
  assumes "\<bar>n\<bar> \<le> 2 ^ k" "k < 1024"
  shows "pf_of_int n = Inr (Fin (float_of_int n))"
proof -
  have "\<bar>(of_int n :: rat)\<bar> \<le> 2 ^ k" using assms(1) by (rule abs_of_int_le)
  then have "\<bar>rd (of_int n)\<bar> \<le> 2 ^ k" by (rule rd_abs_le)
  then have "\<bar>rd (of_int n)\<bar> < 2 ^ 1024" using pow_less_1024 [OF assms(2)] by simp
  then show ?thesis by (simp add: pf_of_int_def float_of_int_def Let_def)
qed

lemma pf_int_truediv_fin:
  assumes "0 \<le> a" "a \<le> b" "0 < b"
  shows "pf_int_truediv a b = Inr (Fin (int_truediv a b))"
proof -
  have "\<bar>(of_int a / of_int b :: rat)\<bar> \<le> 2 ^ 0" using assms by simp
  then have "\<bar>rd (of_int a / of_int b)\<bar> \<le> 2 ^ 0" by (rule rd_abs_le)
  then have "\<bar>rd (of_int a / of_int b)\<bar> < 2 ^ 1024" using pow_less_1024 [of 0] by simp
  then show ?thesis by (simp add: pf_int_truediv_def int_truediv_def Let_def)
qed

lemma int_truediv_le_1:
  assumes "0 \<le> a" "a \<le> b" "0 < b"
  shows "\<bar>int_truediv a b\<bar> \<le> 1"
proof -
  have "\<bar>(of_int a / of_int b :: rat)\<bar> \<le> 2 ^ 0" using assms by simp
  then have "\<bar>rd (of_int a / of_int b)\<bar> \<le> 2 ^ 0" by (rule rd_abs_le)
  then show ?thesis by (simp add: int_truediv_def)
qed

section \<open>The estimator: properties\<close>

lemma rhe_near: "\<bar>y - of_int n\<bar> < 1 / 2 \<Longrightarrow> round_half_even y = n"
proof -
  assume a: "\<bar>y - of_int n\<bar> < 1 / 2"
  show ?thesis
  proof (cases "of_int n \<le> y")
    case True
    then have "\<lfloor>y\<rfloor> = n" using a by (simp add: floor_unique)
    then show ?thesis using a True by (simp add: round_half_even_def)
  next
    case False
    then have "\<lfloor>y\<rfloor> = n - 1" using a by (simp add: floor_unique)
    then show ?thesis using a False by (simp add: round_half_even_def)
  qed
qed

lemma rd_eval:
  assumes "x \<noteq> 0" "- 1022 \<le> e" "\<bar>x\<bar> < 2 powi (e + 1)"
    and "- 1022 < e \<Longrightarrow> 2 powi e \<le> \<bar>x\<bar>"
    and "\<bar>x / 2 powi (e - 52) - of_int n\<bar> < 1 / 2"
    and "r = of_int n * 2 powi (e - 52)"
  shows "rd x = r"
  using float_exponent_unique [OF assms(1-4)] rhe_near [OF assms(5)] assms(1,6)
  by (simp add: rd_def Let_def)

lemma py_int_eval:
  "0 \<le> x \<Longrightarrow> of_int n \<le> x \<Longrightarrow> x < of_int n + 1 \<Longrightarrow> py_int x = n"
  "x < 0 \<Longrightarrow> of_int n - 1 < x \<Longrightarrow> x \<le> of_int n \<Longrightarrow> py_int x = n"
  by (simp_all add: py_int_def floor_unique ceiling_unique)

lemma py_int_mono: "x \<le> y \<Longrightarrow> py_int x \<le> py_int y"
proof -
  assume xy: "x \<le> y"
  consider "0 \<le> x" | "x < 0" "0 \<le> y" | "y < 0" by linarith
  then show ?thesis
  proof cases
    case 1
    then show ?thesis using xy by (simp add: py_int_def floor_mono)
  next
    case 2
    then have "\<lceil>x\<rceil> \<le> 0" "0 \<le> \<lfloor>y\<rfloor>" by (simp_all add: ceiling_le_zero)
    moreover have "py_int x = \<lceil>x\<rceil>" "py_int y = \<lfloor>y\<rfloor>"
      using 2 by (simp_all add: py_int_def)
    ultimately show ?thesis by linarith
  next
    case 3
    then show ?thesis using xy by (simp add: py_int_def ceiling_mono)
  qed
qed

lemma py_int_of_int: "py_int (of_int n) = n"
  by (simp add: py_int_def)

lemma fdiv_mono: "0 \<le> c \<Longrightarrow> x \<le> y \<Longrightarrow> fdiv x c \<le> fdiv y c"
  unfolding fdiv_def by (intro rd_mono divide_right_mono)

lemma fsub_mono: "x \<le> y \<Longrightarrow> fsub x c \<le> fsub y c"
  unfolding fsub_def by (intro rd_mono) simp

lemma fadd_mono: "x \<le> y \<Longrightarrow> fadd c x \<le> fadd c y"
  unfolding fadd_def by (intro rd_mono) simp

lemma fmul_mono: "0 \<le> k \<Longrightarrow> x \<le> y \<Longrightarrow> fmul k x \<le> fmul k y"
  unfolding fmul_def by (intro rd_mono mult_left_mono)

lemma fmul_antimono: "k \<le> 0 \<Longrightarrow> x \<le> y \<Longrightarrow> fmul k y \<le> fmul k x"
  unfolding fmul_def by (intro rd_mono mult_left_mono_neg)

lemma float_of_int_nonneg: "0 \<le> n \<Longrightarrow> 0 \<le> float_of_int n"
  unfolding float_of_int_def by (intro rd_nonneg) simp

lemma epoch_timestamp: "datetime_timestamp epoch_2024 = 1704067200"
  by code_simp

lemma float_consts:
  "float_of_int (24 * 60 * 60) = 86400"
  "float_of_int 100 = 100"
  "float_lit (1461 / 4) = 1461 / 4"
  by code_simp+

lemma elapsed_days_double_eq:
  "fdiv (fsub now (datetime_timestamp epoch_2024)) (float_of_int (24 * 60 * 60)) =
     elapsed_days_double now"
  unfolding elapsed_days_double_def epoch_timestamp float_consts ..

lemma grown_population_double:
  "grown_population cd (elapsed_days_double now) =
     population_double (base_population cd) (annual_growth_rate cd) now"
  unfolding grown_population_def growth_increment_def population_double_def float_consts ..

lemma calculate_populations:
  "south_korea_population (snd (calculate_current_population self now d1 d2)) =
     population_double (base_population (south_korea_data self))
       (annual_growth_rate (south_korea_data self)) now"
  "north_korea_population (snd (calculate_current_population self now d1 d2)) =
     population_double (base_population (north_korea_data self))
       (annual_growth_rate (north_korea_data self)) now"
  unfolding calculate_current_population_def Let_def elapsed_days_double_eq
  by (simp_all add: grown_population_double)


lemma growth_factor_sign:
  assumes "0 \<le> base"
  shows "0 \<le> rate \<Longrightarrow> 0 \<le> fmul (fdiv rate 100) (float_of_int base)"
    and "rate \<le> 0 \<Longrightarrow> fmul (fdiv rate 100) (float_of_int base) \<le> 0"
proof -
  have b: "0 \<le> float_of_int base" using assms by (rule float_of_int_nonneg)
  show "0 \<le> fmul (fdiv rate 100) (float_of_int base)" if "0 \<le> rate"
  proof -
    have "0 \<le> fdiv rate 100" unfolding fdiv_def using that by (intro rd_nonneg) simp
    then show ?thesis unfolding fmul_def using b by (intro rd_nonneg) simp
  qed
  show "fmul (fdiv rate 100) (float_of_int base) \<le> 0" if "rate \<le> 0"
  proof -
    have "fdiv rate 100 \<le> 0" unfolding fdiv_def using that by (intro rd_nonpos) simp
    then show ?thesis unfolding fmul_def using b
      by (intro rd_nonpos) (simp add: mult_nonpos_nonneg)
  qed
qed

lemma elapsed_days_double_mono: "now1 \<le> now2 \<Longrightarrow> elapsed_days_double now1 \<le> elapsed_days_double now2"
  unfolding elapsed_days_double_def by (intro fdiv_mono fsub_mono) simp_all

lemma population_double_mono:
  assumes "0 \<le> base" "now1 \<le> now2"
  shows "0 \<le> rate \<Longrightarrow> population_double base rate now1 \<le> population_double base rate now2"
    and "rate \<le> 0 \<Longrightarrow> population_double base rate now2 \<le> population_double base rate now1"
proof -
  have y: "fdiv (elapsed_days_double now1) (1461 / 4) \<le> fdiv (elapsed_days_double now2) (1461 / 4)"
    using assms(2) by (intro fdiv_mono elapsed_days_double_mono) simp_all
  show "population_double base rate now1 \<le> population_double base rate now2" if "0 \<le> rate"
    unfolding population_double_def
    using growth_factor_sign(1) [OF assms(1) that] y
    by (intro py_int_mono fadd_mono fmul_mono)
  show "population_double base rate now2 \<le> population_double base rate now1" if "rate \<le> 0"
    unfolding population_double_def
    using growth_factor_sign(2) [OF assms(1) that] y
    by (intro py_int_mono fadd_mono fmul_antimono)
qed

lemma elapsed_days_double_before: "now \<le> 1704067200 \<Longrightarrow> elapsed_days_double now \<le> 0"
  unfolding elapsed_days_double_def fdiv_def fsub_def
  by (intro rd_nonpos divide_nonpos_nonneg) simp_all

lemma population_double_before:
  assumes "0 \<le> base" "base < 2 ^ 53" "now \<le> 1704067200"
  shows "0 \<le> rate \<Longrightarrow> population_double base rate now \<le> base"
    and "rate \<le> 0 \<Longrightarrow> base \<le> population_double base rate now"
proof -
  define inc where
    "inc = fmul (fmul (fdiv rate 100) (float_of_int base))
             (fdiv (elapsed_days_double now) (1461 / 4))"
  have fb: "float_of_int base = of_int base"
    unfolding float_of_int_def using assms(1,2) by (intro rd_of_int) simp
  have rb: "rd (of_int base) = of_int base"
    using assms(1,2) by (intro rd_of_int) simp
  have pop: "population_double base rate now = py_int (rd (of_int base + inc))"
    by (simp add: population_double_def fadd_def inc_def fb)
  have y: "fdiv (elapsed_days_double now) (1461 / 4) \<le> 0"
    unfolding fdiv_def using elapsed_days_double_before [OF assms(3)]
    by (intro rd_nonpos divide_nonpos_nonneg) simp_all
  show "population_double base rate now \<le> base" if "0 \<le> rate"
  proof -
    have "inc \<le> 0"
      unfolding inc_def fmul_def [of "fmul (fdiv rate 100) (float_of_int base)"]
      using growth_factor_sign(1) [OF assms(1) that] y
      by (intro rd_nonpos mult_nonneg_nonpos)
    then have "rd (of_int base + inc) \<le> rd (of_int base)"
      by (intro rd_mono) simp
    then have "py_int (rd (of_int base + inc)) \<le> py_int (of_int base)"
      unfolding rb by (rule py_int_mono)
    then show ?thesis by (simp only: pop py_int_of_int)
  qed
  show "base \<le> population_double base rate now" if "rate \<le> 0"
  proof -
    have "0 \<le> inc"
      unfolding inc_def fmul_def [of "fmul (fdiv rate 100) (float_of_int base)"]
      using growth_factor_sign(2) [OF assms(1) that] y
      by (intro rd_nonneg mult_nonpos_nonpos)
    then have "rd (of_int base) \<le> rd (of_int base + inc)"
      by (intro rd_mono) simp
    then have "py_int (of_int base) \<le> py_int (rd (of_int base + inc))"
      unfolding rb by (rule py_int_mono)
    then show ?thesis by (simp only: pop py_int_of_int)
  qed
qed

lemma whole_seconds:
  assumes "0 \<le> s" "s < 86400" "0 \<le> us" "us < 1000000"
  shows "py_int (int_truediv (s * 1000000 + us) 1000000) = s"
proof -
  define x :: rat where "x = of_int (s * 1000000 + us) / of_int 1000000"
  have lo: "of_int s \<le> x" using assms by (simp add: x_def field_simps)
  have "of_int (s * 1000000 + us) \<le> (of_int (s * 1000000 + 999999) :: rat)"
    using assms by (simp only: of_int_le_iff)
  then have hi: "x \<le> of_int ((s + 1) * 2 ^ 20 - 1) * 2 powi (- 20)"
    using assms by (simp add: x_def field_simps power_int_minus)
  have "rd (of_int s) \<le> rd x" using lo by (rule rd_mono)
  moreover have "rd (of_int s) = of_int s" using assms by (intro rd_of_int) simp
  ultimately have lo': "of_int s \<le> rd x" by simp
  have "rd x \<le> rd (of_int ((s + 1) * 2 ^ 20 - 1) * 2 powi (- 20))" using hi by (rule rd_mono)
  moreover have "rd (of_int ((s + 1) * 2 ^ 20 - 1) * 2 powi (- 20)) =
      of_int ((s + 1) * 2 ^ 20 - 1) * 2 powi (- 20)"
    using assms by (intro rd_exact) simp_all
  ultimately have "rd x \<le> of_int ((s + 1) * 2 ^ 20 - 1) * 2 powi (- 20)" by simp
  also have "\<dots> < of_int s + 1" by (simp add: field_simps power_int_minus)
  finally have hi': "rd x < of_int s + 1" .
  have "0 \<le> rd x" using lo' assms by (metis of_int_0_le_iff order_trans)
  then have "py_int (rd x) = s" using lo' hi' by (intro py_int_eval(1))
  then show ?thesis by (simp add: int_truediv_def x_def)
qed

lemma seconds_since_midnight:
  assumes "valid_time now_kst"
  shows "get_seconds_since_midnight_kst now_kst =
           hour now_kst * 3600 + minute now_kst * 60 + second now_kst"
proof -
  define s where "s = second now_kst + minute now_kst * 60 + hour now_kst * 3600"
  define us where "us = microsecond now_kst"
  have b: "0 \<le> s" "s < 86400" "0 \<le> us" "us < 1000000"
    using assms by (auto simp: valid_time_def s_def us_def)
  have tot: "0 \<le> s * 1000000 + us" "s * 1000000 + us < 86400000000"
    using b by auto
  have td: "datetime_sub now_kst
              (now_kst\<lparr> hour := 0, minute := 0, second := 0, microsecond := 0 \<rparr>) =
            \<lparr> days = 0, seconds = s, microseconds = us \<rparr>"
    using b tot by (simp add: datetime_sub_def mk_timedelta_def toordinal_def s_def [symmetric]
        us_def [symmetric] Let_def)
  show ?thesis
    unfolding get_seconds_since_midnight_kst_def Let_def td total_seconds_def
    using whole_seconds [OF b] by (simp add: s_def)
qed

lemma py_int_bracket:
  "\<bar>v - V\<bar> \<le> d \<Longrightarrow> py_int (V - d) \<le> py_int v \<and> py_int v \<le> py_int (V + d)"
  by (intro conjI py_int_mono) (simp_all add: abs_le_iff)

lemma truncated_py_int: "truncated x = py_int x"
  by (simp add: truncated_def py_int_def ceiling_def)

lemma truncated_mono: "x \<le> y \<Longrightarrow> truncated x \<le> truncated y"
  unfolding truncated_py_int by (rule py_int_mono)

lemma truncated_bracket:
  assumes "\<bar>v - V\<bar> \<le> e"
  shows "truncated (V - e) \<le> py_int v" "py_int v \<le> truncated (V + e)"
  using py_int_bracket [OF assms] by (simp_all add: truncated_py_int)

lemma truncated_eval:
  "0 \<le> x \<Longrightarrow> of_int n \<le> x \<Longrightarrow> x < of_int n + 1 \<Longrightarrow> truncated x = n"
  unfolding truncated_py_int by (rule py_int_eval(1))

lemma korea_now_rest:
  fixes us :: int
  defines "rest \<equiv> (us + 32400000000) mod 86400000000"
  shows "rest div 1000000 = (us div 1000000 + 32400) mod 86400"
    and "0 \<le> rest" and "rest < 86400000000"
proof -
  define L where "L = us + 32400000000"
  have "L mod (1000000 * 86400) = 1000000 * (L div 1000000 mod 86400) + L mod 1000000"
    by (rule zmod_zmult2_eq) simp
  then have r: "rest = 1000000 * (L div 1000000 mod 86400) + L mod 1000000"
    by (simp add: rest_def L_def)
  have "L div 1000000 = us div 1000000 + 32400" by (simp add: L_def)
  moreover have "rest div 1000000 = L div 1000000 mod 86400"
    unfolding r by simp
  ultimately show "rest div 1000000 = (us div 1000000 + 32400) mod 86400" by simp
  show "0 \<le> rest" "rest < 86400000000" by (simp_all add: rest_def)
qed

lemma korea_now_fields:
  "hour (get_korea_timezone_now us) = (us + 32400000000) mod 86400000000 div 3600000000"
  "minute (get_korea_timezone_now us) = (us + 32400000000) mod 86400000000 div 60000000 mod 60"
  "second (get_korea_timezone_now us) = (us + 32400000000) mod 86400000000 div 1000000 mod 60"
  "microsecond (get_korea_timezone_now us) = (us + 32400000000) mod 86400000000 mod 1000000"
  "utcoffset (get_korea_timezone_now us) = 32400"
  by (simp_all add: get_korea_timezone_now_def datetime_now_def Let_def)

lemma korea_now_valid: "valid_time (get_korea_timezone_now us)"
proof -
  define rest where "rest = (us + 32400000000) mod 86400000000"
  have b: "0 \<le> rest" "rest < 86400000000" by (simp_all add: rest_def)
  then have "0 \<le> rest div 3600000000" "rest div 3600000000 < 24" by simp_all
  then show ?thesis
    unfolding valid_time_def korea_now_fields rest_def [symmetric] by simp
qed

lemma korea_now_seconds:
  "get_seconds_since_midnight_kst (get_korea_timezone_now us) =
     (us div 1000000 + 32400) mod 86400"
proof -
  define rest where "rest = (us + 32400000000) mod 86400000000"
  define s where "s = rest div 1000000"
  have h: "rest div 3600000000 = s div 3600"
    unfolding s_def by (simp add: zdiv_zmult2_eq [symmetric])
  have m: "rest div 60000000 = s div 60"
    unfolding s_def by (simp add: zdiv_zmult2_eq [symmetric])
  have d: "s div 3600 = s div 60 div 60" by (simp add: zdiv_zmult2_eq [symmetric])
  have "s div 3600 * 3600 + s div 60 mod 60 * 60 + s mod 60 = s"
    unfolding d by presburger
  then show ?thesis
    using seconds_since_midnight [OF korea_now_valid, of us] korea_now_rest(1) [of us]
    by (simp add: korea_now_fields rest_def [symmetric] h m s_def [symmetric])
qed

lemma korea_now_example:
  "get_korea_timezone_now 1718425413000000 =
     \<lparr> year = 2024, month = 6, day = 15, hour = 13, minute = 23, second = 33,
       microsecond = 0, utcoffset = 32400 \<rparr>"
  "get_korea_timezone_now 1704067200000000 = kst_after_epoch 0"
  "get_korea_timezone_now 1718420400000000 = noon_kst"
  "get_korea_timezone_now 1735624800000000 = one_year_kst"
  "get_korea_timezone_now 1703980800000000 = day_before_kst"
  by code_simp+

lemma seconds_in_day:
  assumes "valid_time now_kst"
  shows "0 \<le> get_seconds_since_midnight_kst now_kst"
    "get_seconds_since_midnight_kst now_kst \<le> 86400"
  using assms unfolding seconds_since_midnight [OF assms] valid_time_def by auto

lemma events_today_close:
  assumes a: "\<bar>annual\<bar> \<le> 2 ^ 40" and s: "0 \<le> secs" "secs \<le> 86400"
  shows "\<bar>fdiv (fmul (float_of_int annual) (int_truediv secs 86400)) (1461 / 4) -
           spec_events_value annual secs\<bar> \<le> 1 / 2 ^ 19"
proof -
  define A :: rat where "A = of_int annual"
  define F :: rat where "F = of_int secs / 86400"
  define f where "f = rd F"
  define p where "p = rd (A * f)"
  define q where "q = rd (p / (1461 / 4))"
  have "\<bar>annual\<bar> < 2 ^ 53" using a by simp
  then have fa: "float_of_int annual = A" unfolding A_def by (rule float_of_int_exact)
  have A: "\<bar>A\<bar> \<le> 2 ^ 40" unfolding A_def using a by (rule abs_of_int_le)
  have F: "\<bar>F\<bar> \<le> 1" using s by (simp add: F_def)
  have ef: "\<bar>f - F\<bar> \<le> 1 / 2 ^ 53" unfolding f_def using rd_err [OF F] by simp
  have f1: "\<bar>f\<bar> \<le> 1" unfolding f_def using rd_abs_le [of F 0] F by simp
  have "A * f - A * F = A * (f - F)" by (simp add: algebra_simps)
  then have "\<bar>A * f - A * F\<bar> = \<bar>A\<bar> * \<bar>f - F\<bar>" by (simp add: abs_mult)
  also have "\<dots> \<le> 2 ^ 40 * (1 / 2 ^ 53)" using A ef by (intro mult_mono) simp_all
  finally have e1: "\<bar>A * f - A * F\<bar> \<le> 1 / 2 ^ 13" by simp
  have "\<bar>A * f\<bar> = \<bar>A\<bar> * \<bar>f\<bar>" by (simp add: abs_mult)
  also have "\<dots> \<le> 2 ^ 40 * 1" using A f1 by (intro mult_mono) simp_all
  finally have af: "\<bar>A * f\<bar> \<le> 2 ^ 40" by simp
  have e2: "\<bar>p - A * f\<bar> \<le> 1 / 2 ^ 13" unfolding p_def using rd_err [OF af] by simp
  have pp: "\<bar>p\<bar> \<le> 2 ^ 40" unfolding p_def using af by (rule rd_abs_le)
  have ep: "\<bar>p - A * F\<bar> \<le> 1 / 2 ^ 12" using abs_tri [OF e2 e1] by simp
  have "\<bar>p / (1461 / 4)\<bar> = \<bar>p\<bar> * (4 / 1461)" by (simp add: abs_mult)
  also have "\<dots> \<le> 2 ^ 40 * (4 / 1461)" using pp by (intro mult_right_mono) simp_all
  also have "\<dots> \<le> 2 ^ 32" by simp
  finally have pq: "\<bar>p / (1461 / 4)\<bar> \<le> 2 ^ 32" .
  have e3: "\<bar>q - p / (1461 / 4)\<bar> \<le> 1 / 2 ^ 21" unfolding q_def using rd_err [OF pq] by simp
  have eq: "p / (1461 / 4) - A * F / (1461 / 4) = (p - A * F) * (4 / 1461)"
    by (simp add: algebra_simps)
  have "\<bar>p / (1461 / 4) - A * F / (1461 / 4)\<bar> = \<bar>p - A * F\<bar> * (4 / 1461)"
    unfolding eq abs_mult by simp
  also have "\<dots> \<le> 1 / 2 ^ 12 * (4 / 1461)" using ep by (intro mult_right_mono) simp_all
  also have "\<dots> \<le> 1 / 2 ^ 20" by simp
  finally have e4: "\<bar>p / (1461 / 4) - A * F / (1461 / 4)\<bar> \<le> 1 / 2 ^ 20" .
  have res: "\<bar>q - A * F / (1461 / 4)\<bar> \<le> 1 / 2 ^ 19" using abs_tri [OF e3 e4] by simp
  have c1: "fdiv (fmul (float_of_int annual) (int_truediv secs 86400)) (1461 / 4) = q"
    by (simp add: fdiv_def fmul_def int_truediv_def fa q_def p_def f_def F_def)
  have c2: "spec_events_value annual secs = A * F / (1461 / 4)"
    by (simp add: spec_events_value_def spec_day_fraction_def A_def F_def)
  show ?thesis unfolding c1 c2 by (rule res)
qed

lemma events_today_bracket:
  assumes "\<bar>annual\<bar> \<le> 2 ^ 40" "0 \<le> secs" "secs \<le> 86400"
  shows "truncated (spec_events_value annual secs - 1 / 2 ^ 19) \<le>
           events_today annual (int_truediv secs (24 * 60 * 60)) \<and>
         events_today annual (int_truediv secs (24 * 60 * 60)) \<le>
           truncated (spec_events_value annual secs + 1 / 2 ^ 19)"
  using py_int_bracket [OF events_today_close [OF assms]]
  by (simp add: events_today_def float_consts truncated_py_int)

lemma events_agree_double:
  assumes "\<bar>annual\<bar> \<le> 2 ^ 40" "0 \<le> secs" "secs \<le> 86400"
  shows "events_agree annual secs (events_today annual (int_truediv secs (24 * 60 * 60)))"
proof -
  define V where "V = spec_events_value annual secs"
  define c where "c = events_today annual (int_truediv secs (24 * 60 * 60))"
  have br: "truncated (V - 1 / 2 ^ 19) \<le> c" "c \<le> truncated (V + 1 / 2 ^ 19)"
    using events_today_bracket [OF assms] by (simp_all add: V_def c_def)
  have "c = \<lfloor>V\<rfloor>" if a: "0 \<le> annual" and fl: "\<lfloor>V - 1 / 2 ^ 19\<rfloor> = \<lfloor>V + 1 / 2 ^ 19\<rfloor>"
  proof -
    have "0 \<le> V" using a assms(2)
      by (simp add: V_def spec_events_value_def spec_day_fraction_def)
    then have hi: "truncated (V + 1 / 2 ^ 19) = \<lfloor>V + 1 / 2 ^ 19\<rfloor>"
      by (simp add: truncated_def)
    have "\<lfloor>V - 1 / 2 ^ 19\<rfloor> \<le> truncated (V - 1 / 2 ^ 19)"
      by (simp add: truncated_def) linarith
    then have "\<lfloor>V - 1 / 2 ^ 19\<rfloor> \<le> c" "c \<le> \<lfloor>V + 1 / 2 ^ 19\<rfloor>"
      using br hi by simp_all
    moreover have "\<lfloor>V - 1 / 2 ^ 19\<rfloor> \<le> \<lfloor>V\<rfloor>" "\<lfloor>V\<rfloor> \<le> \<lfloor>V + 1 / 2 ^ 19\<rfloor>"
      by (simp_all add: floor_mono)
    ultimately show ?thesis using fl by simp
  qed
  then have "events_agree annual secs c"
    using br by (simp add: events_agree_def Let_def V_def [symmetric] spec_events_today_def)
  then show ?thesis unfolding c_def .
qed

lemma population_close:
  assumes b: "\<bar>base\<bar> \<le> 2 ^ 33" and r: "\<bar>rate\<bar> \<le> 100"
    and t: "\<bar>now - 1704067200\<bar> \<le> 2 ^ 32"
  shows "\<bar>fadd (float_of_int base)
            (fmul (fmul (fdiv rate 100) (float_of_int base))
               (fdiv (elapsed_days_double now) (1461 / 4))) -
          spec_population_value base rate now\<bar> \<le> 1 / 256"
proof -
  define B :: rat where "B = of_int base"
  define R where "R = rate / 100"
  define x1 where "x1 = rd R"
  define P where "P = R * B"
  define x3 where "x3 = rd (x1 * B)"
  define S where "S = now - 1704067200"
  define s where "s = rd S"
  define D where "D = S / 86400"
  define d where "d = rd (s / 86400)"
  define Y where "Y = D / (1461 / 4)"
  define y where "y = rd (d / (1461 / 4))"
  define inc where "inc = rd (x3 * y)"
  have "\<bar>base\<bar> < 2 ^ 53" using b by simp
  then have fb: "float_of_int base = B" unfolding B_def by (rule float_of_int_exact)
  have B: "\<bar>B\<bar> \<le> 2 ^ 33" unfolding B_def using b by (rule abs_of_int_le)
  have R: "\<bar>R\<bar> \<le> 1" using r by (simp add: R_def)
  have e1: "\<bar>x1 - R\<bar> \<le> 1 / 2 ^ 53" unfolding x1_def using rd_err [OF R] by simp
  have m1: "\<bar>x1\<bar> \<le> 1" unfolding x1_def using rd_abs_le [of R 0] R by simp
  have P: "\<bar>P\<bar> \<le> 2 ^ 33" unfolding P_def using abs_mult_le [OF R B] by simp
  have "x1 * B - P = (x1 - R) * B" by (simp add: P_def algebra_simps)
  then have "\<bar>x1 * B - P\<bar> \<le> 1 / 2 ^ 53 * 2 ^ 33"
    using abs_mult_le [OF e1 B] by simp
  then have e2: "\<bar>x1 * B - P\<bar> \<le> 1 / 2 ^ 20" by simp
  have m2: "\<bar>x1 * B\<bar> \<le> 2 ^ 33" using abs_mult_le [OF m1 B] by simp
  have e3: "\<bar>x3 - x1 * B\<bar> \<le> 1 / 2 ^ 20" unfolding x3_def using rd_err [OF m2] by simp
  have e4: "\<bar>x3 - P\<bar> \<le> 1 / 2 ^ 19" using abs_tri [OF e3 e2] by simp
  have S: "\<bar>S\<bar> \<le> 2 ^ 32" using t by (simp add: S_def)
  have e5: "\<bar>s - S\<bar> \<le> 1 / 2 ^ 21" unfolding s_def using rd_err [OF S] by simp
  have m5: "\<bar>s\<bar> \<le> 2 ^ 32" unfolding s_def using S by (rule rd_abs_le)
  have "\<bar>s / 86400 - D\<bar> \<le> 1 / 2 ^ 21 / 86400"
    unfolding D_def using e5 by (intro div_err) simp_all
  then have e6: "\<bar>s / 86400 - D\<bar> \<le> 1 / 2 ^ 37" by simp
  have "\<bar>s / 86400\<bar> \<le> 2 ^ 32 / 86400" using m5 by (intro abs_div_le) simp_all
  then have m6: "\<bar>s / 86400\<bar> \<le> 2 ^ 16" by simp
  have e7: "\<bar>d - s / 86400\<bar> \<le> 1 / 2 ^ 37" unfolding d_def using rd_err [OF m6] by simp
  have m7: "\<bar>d\<bar> \<le> 2 ^ 16" unfolding d_def using m6 by (rule rd_abs_le)
  have e8: "\<bar>d - D\<bar> \<le> 1 / 2 ^ 36" using abs_tri [OF e7 e6] by simp
  have "\<bar>d / (1461 / 4) - Y\<bar> \<le> 1 / 2 ^ 36 / (1461 / 4)"
    unfolding Y_def using e8 by (intro div_err) simp_all
  then have e9: "\<bar>d / (1461 / 4) - Y\<bar> \<le> 1 / 2 ^ 44" by simp
  have "\<bar>d / (1461 / 4)\<bar> \<le> 2 ^ 16 / (1461 / 4)" using m7 by (intro abs_div_le) simp_all
  then have m9: "\<bar>d / (1461 / 4)\<bar> \<le> 2 ^ 8" by simp
  have e10: "\<bar>y - d / (1461 / 4)\<bar> \<le> 1 / 2 ^ 45" unfolding y_def using rd_err [OF m9] by simp
  have m10: "\<bar>y\<bar> \<le> 2 ^ 8" unfolding y_def using m9 by (rule rd_abs_le)
  have e11: "\<bar>y - Y\<bar> \<le> 1 / 2 ^ 43" using abs_tri [OF e10 e9] by simp
  have "\<bar>x3 * y - P * Y\<bar> \<le> 1 / 2 ^ 19 * 2 ^ 8 + 2 ^ 33 * (1 / 2 ^ 43)"
    using e4 e11 P m10 by (rule mult_err)
  then have e12: "\<bar>x3 * y - P * Y\<bar> \<le> 3 / 2 ^ 11" by simp
  have m3: "\<bar>x3\<bar> \<le> 2 ^ 33" unfolding x3_def using m2 by (rule rd_abs_le)
  have m12: "\<bar>x3 * y\<bar> \<le> 2 ^ 41" using abs_mult_le [OF m3 m10] by simp
  have e13: "\<bar>inc - x3 * y\<bar> \<le> 1 / 2 ^ 12" unfolding inc_def using rd_err [OF m12] by simp
  have m13: "\<bar>inc\<bar> \<le> 2 ^ 41" unfolding inc_def using m12 by (rule rd_abs_le)
  have e14: "\<bar>inc - P * Y\<bar> \<le> 7 / 2 ^ 12" using abs_tri [OF e13 e12] by simp
  have "\<bar>B + inc\<bar> \<le> 2 ^ 33 + 2 ^ 41" using B m13 by linarith
  then have m15: "\<bar>B + inc\<bar> \<le> 2 ^ 42" by simp
  have e15: "\<bar>rd (B + inc) - (B + inc)\<bar> \<le> 1 / 2 ^ 11" using rd_err [OF m15] by simp
  have "(B + inc) - (B + P * Y) = inc - P * Y" by simp
  then have e16: "\<bar>(B + inc) - (B + P * Y)\<bar> \<le> 7 / 2 ^ 12" using e14 by simp
  have res: "\<bar>rd (B + inc) - (B + P * Y)\<bar> \<le> 1 / 256" using abs_tri [OF e15 e16] by simp
  have c1: "fadd (float_of_int base)
            (fmul (fmul (fdiv rate 100) (float_of_int base))
               (fdiv (elapsed_days_double now) (1461 / 4))) = rd (B + inc)"
    by (simp add: fadd_def fmul_def fdiv_def fsub_def elapsed_days_double_def fb inc_def
        x3_def x1_def R_def y_def d_def s_def S_def)
  have c2: "spec_population_value base rate now = B + P * Y"
    by (simp add: spec_population_value_def spec_elapsed_days_def B_def P_def R_def Y_def
        D_def S_def)
  show ?thesis unfolding c1 c2 by (rule res)
qed

lemma population_agrees_double:
  assumes "\<bar>base\<bar> \<le> 2 ^ 33" "\<bar>rate\<bar> \<le> 100" "\<bar>now - 1704067200\<bar> \<le> 2 ^ 32"
  shows "population_agrees base rate now (population_double base rate now)"
proof -
  define V where "V = spec_population_value base rate now"
  note br = truncated_bracket [OF population_close [OF assms], folded population_double_def V_def]
  have "truncated (V - 1 / 256) \<le> truncated V" "truncated V \<le> truncated (V + 1 / 256)"
    by (simp_all add: truncated_mono)
  then have "population_double base rate now = truncated V"
    if "truncated (V - 1 / 256) = truncated (V + 1 / 256)"
    using that br by simp
  then show ?thesis
    using br by (simp add: population_agrees_def Let_def V_def [symmetric] spec_population_def)
qed

lemma growth_increment_checked_eq:
  assumes b: "\<bar>base_population cd\<bar> \<le> 2 ^ 53" and r: "\<bar>annual_growth_rate cd\<bar> \<le> 2 ^ 53"
    and d: "\<bar>d\<bar> \<le> 2 ^ 63"
  shows "growth_increment_checked cd (Fin d) = Inr (Fin (growth_increment cd d))"
    and "\<bar>growth_increment cd d\<bar> \<le> 2 ^ 169"
proof -
  define B where "B = float_of_int (base_population cd)"
  define x1 where "x1 = fdiv (annual_growth_rate cd) 100"
  define x3 where "x3 = fmul x1 B"
  define y where "y = fdiv d (1461 / 4)"
  have pb: "pf_of_int (base_population cd) = Inr (Fin B)"
    unfolding B_def using b by (rule pf_of_int_fin) simp
  have "\<bar>(of_int (base_population cd) :: rat)\<bar> \<le> 2 ^ 53" using b by (rule abs_of_int_le)
  then have B: "\<bar>B\<bar> \<le> 2 ^ 53" unfolding B_def float_of_int_def by (rule rd_abs_le)
  have "\<bar>annual_growth_rate cd / 100\<bar> \<le> 2 ^ 53 / 100" using r by (intro abs_div_le) simp_all
  then have q1: "\<bar>annual_growth_rate cd / 100\<bar> \<le> 2 ^ 53" by simp
  have p1: "pf_round (annual_growth_rate cd / 100) = Fin x1"
    unfolding x1_def fdiv_def using q1 by (rule pf_round_fin) simp
  have m1: "\<bar>x1\<bar> \<le> 2 ^ 53" unfolding x1_def fdiv_def using q1 by (rule rd_abs_le)
  have q3: "\<bar>x1 * B\<bar> \<le> 2 ^ 106" using abs_mult_le [OF m1 B] by simp
  have p3: "pf_round (x1 * B) = Fin x3"
    unfolding x3_def fmul_def using q3 by (rule pf_round_fin) simp
  have m3: "\<bar>x3\<bar> \<le> 2 ^ 106" unfolding x3_def fmul_def using q3 by (rule rd_abs_le)
  have "\<bar>d / (1461 / 4)\<bar> \<le> 2 ^ 63 / (1461 / 4)" using d by (intro abs_div_le) simp_all
  then have qy: "\<bar>d / (1461 / 4)\<bar> \<le> 2 ^ 63" by simp
  have py: "pf_round (d / (1461 / 4)) = Fin y"
    unfolding y_def fdiv_def using qy by (rule pf_round_fin) simp
  have my: "\<bar>y\<bar> \<le> 2 ^ 63" unfolding y_def fdiv_def using qy by (rule rd_abs_le)
  have qi: "\<bar>x3 * y\<bar> \<le> 2 ^ 169" using abs_mult_le [OF m3 my] by simp
  have pi: "pf_round (x3 * y) = Fin (fmul x3 y)"
    unfolding fmul_def using qi by (rule pf_round_fin) simp
  have g: "growth_increment cd d = fmul x3 y"
    by (simp add: growth_increment_def float_consts x3_def x1_def y_def B_def)
  show "growth_increment_checked cd (Fin d) = Inr (Fin (growth_increment cd d))"
    unfolding growth_increment_checked_def float_consts pb sum.case pf_div.simps p1
      pf_mul.simps p3 py pi g ..
  show "\<bar>growth_increment cd d\<bar> \<le> 2 ^ 169"
    unfolding g fmul_def using qi by (rule rd_abs_le)
qed

lemma grown_population_checked_eq:
  assumes b: "\<bar>base_population cd\<bar> \<le> 2 ^ 53" and i: "\<bar>inc\<bar> \<le> 2 ^ 169"
  shows "grown_population_checked cd (Fin inc) =
           Inr (py_int (fadd (float_of_int (base_population cd)) inc))"
proof -
  define B where "B = float_of_int (base_population cd)"
  have pb: "pf_of_int (base_population cd) = Inr (Fin B)"
    unfolding B_def using b by (rule pf_of_int_fin) simp
  have "\<bar>(of_int (base_population cd) :: rat)\<bar> \<le> 2 ^ 53" using b by (rule abs_of_int_le)
  then have B: "\<bar>B\<bar> \<le> 2 ^ 53" unfolding B_def float_of_int_def by (rule rd_abs_le)
  have "\<bar>B + inc\<bar> \<le> 2 ^ 53 + 2 ^ 169" using B i by linarith
  then have "\<bar>B + inc\<bar> \<le> 2 ^ 170" by simp
  then have pr: "pf_round (B + inc) = Fin (fadd B inc)"
    unfolding fadd_def by (rule pf_round_fin) simp
  show ?thesis
    unfolding grown_population_checked_def pb sum.case pf_add.simps pr pf_int.simps
    unfolding B_def ..
qed

lemma events_today_checked_eq:
  assumes a: "\<bar>annual\<bar> \<le> 2 ^ 53" and f: "\<bar>f\<bar> \<le> 1"
  shows "events_today_checked annual (Fin f) = Inr (events_today annual f)"
proof -
  define A where "A = float_of_int annual"
  have pa: "pf_of_int annual = Inr (Fin A)"
    unfolding A_def using a by (rule pf_of_int_fin) simp
  have "\<bar>(of_int annual :: rat)\<bar> \<le> 2 ^ 53" using a by (rule abs_of_int_le)
  then have A: "\<bar>A\<bar> \<le> 2 ^ 53" unfolding A_def float_of_int_def by (rule rd_abs_le)
  have q: "\<bar>A * f\<bar> \<le> 2 ^ 53" using abs_mult_le [OF A f] by simp
  have p: "pf_round (A * f) = Fin (fmul A f)"
    unfolding fmul_def using q by (rule pf_round_fin) simp
  have m: "\<bar>fmul A f\<bar> \<le> 2 ^ 53" unfolding fmul_def using q by (rule rd_abs_le)
  have "\<bar>fmul A f / (1461 / 4)\<bar> \<le> 2 ^ 53 / (1461 / 4)" using m by (intro abs_div_le) simp_all
  then have "\<bar>fmul A f / (1461 / 4)\<bar> \<le> 2 ^ 53" by simp
  then have pd: "pf_round (fmul A f / (1461 / 4)) = Fin (fdiv (fmul A f) (1461 / 4))"
    unfolding fdiv_def [of "fmul A f"] by (rule pf_round_fin) simp
  show ?thesis
    unfolding events_today_checked_def events_today_def float_consts pa sum.case
      pf_mul.simps p pf_div.simps pd pf_int.simps
    unfolding A_def ..
qed

lemma elapsed_days_checked:
  assumes "\<bar>now - 1704067200\<bar> \<le> 2 ^ 63"
  shows "pf_div (pf_round (now - 1704067200)) 86400 = Fin (elapsed_days_double now)"
    and "\<bar>elapsed_days_double now\<bar> \<le> 2 ^ 63"
proof -
  define s where "s = fsub now 1704067200"
  have p: "pf_round (now - 1704067200) = Fin s"
    unfolding s_def fsub_def using assms by (rule pf_round_fin) simp
  have m: "\<bar>s\<bar> \<le> 2 ^ 63" unfolding s_def fsub_def using assms by (rule rd_abs_le)
  have "\<bar>s / 86400\<bar> \<le> 2 ^ 63 / 86400" using m by (intro abs_div_le) simp_all
  then have q: "\<bar>s / 86400\<bar> \<le> 2 ^ 63" by simp
  have pq: "pf_round (s / 86400) = Fin (fdiv s 86400)"
    unfolding fdiv_def using q by (rule pf_round_fin) simp
  show "pf_div (pf_round (now - 1704067200)) 86400 = Fin (elapsed_days_double now)"
    unfolding p pf_div.simps pq
    unfolding elapsed_days_double_def s_def ..
  show "\<bar>elapsed_days_double now\<bar> \<le> 2 ^ 63"
    unfolding elapsed_days_double_def s_def [symmetric] fdiv_def using q by (rule rd_abs_le)
qed

lemma checked_agrees:
  assumes sk: "moderate (south_korea_data self)" and nk: "moderate (north_korea_data self)"
    and t: "\<bar>now - 1704067200\<bar> \<le> 2 ^ 63" and v: "valid_time now_secs"
  shows "calculate_current_population_checked self now now_date now_secs =
           Inr (calculate_current_population self now now_date now_secs)"
proof -
  define d where "d = elapsed_days_double now"
  define secs where "secs = get_seconds_since_midnight_kst now_secs"
  define f where "f = int_truediv secs 86400"
  note ed = elapsed_days_checked [OF t, folded d_def]
  have bs: "\<bar>base_population (south_korea_data self)\<bar> \<le> 2 ^ 53"
    "\<bar>annual_growth_rate (south_korea_data self)\<bar> \<le> 2 ^ 53"
    "\<bar>annual_births (south_korea_data self)\<bar> \<le> 2 ^ 53"
    "\<bar>annual_deaths (south_korea_data self)\<bar> \<le> 2 ^ 53"
    using sk by (simp_all add: moderate_def)
  have bn: "\<bar>base_population (north_korea_data self)\<bar> \<le> 2 ^ 53"
    "\<bar>annual_growth_rate (north_korea_data self)\<bar> \<le> 2 ^ 53"
    "\<bar>annual_births (north_korea_data self)\<bar> \<le> 2 ^ 53"
    "\<bar>annual_deaths (north_korea_data self)\<bar> \<le> 2 ^ 53"
    using nk by (simp_all add: moderate_def)
  note gs = growth_increment_checked_eq [OF bs(1,2) ed(2)]
  note gn = growth_increment_checked_eq [OF bn(1,2) ed(2)]
  note ps = grown_population_checked_eq [OF bs(1) gs(2)]
  note pn = grown_population_checked_eq [OF bn(1) gn(2)]
  have s: "0 \<le> secs" "secs \<le> 86400" "(0::int) < 86400"
    using seconds_in_day [OF v] by (simp_all add: secs_def)
  have df: "pf_int_truediv secs 86400 = Inr (Fin f)"
    unfolding f_def using s by (rule pf_int_truediv_fin)
  have f1: "\<bar>f\<bar> \<le> 1" unfolding f_def using s by (rule int_truediv_le_1)
  note e1 = events_today_checked_eq [OF bs(3) f1] events_today_checked_eq [OF bs(4) f1]
    events_today_checked_eq [OF bn(3) f1] events_today_checked_eq [OF bn(4) f1]
  have u: "fdiv (fsub now 1704067200) 86400 = d"
    by (simp add: d_def elapsed_days_double_def)
  show ?thesis
    unfolding calculate_current_population_checked_def calculate_current_population_def
      Let_def epoch_timestamp float_consts
    by (simp add: ed(1) gs(1) gn(1) ps pn df [unfolded f_def secs_def]
        e1 [unfolded f_def secs_def] grown_population_def u)
qed

lemma elapsed_days_before:
  assumes "now \<le> 1704067200 - 86400"
  shows "elapsed_days_double now \<le> - 1"
proof -
  have "rd (now - 1704067200) \<le> rd (- 86400)" using assms by (intro rd_mono) simp
  moreover have "rd (- 86400) = - 86400" using rd_of_int [of "- 86400"] by simp
  ultimately have "fsub now 1704067200 / 86400 \<le> - 1" by (simp add: fsub_def)
  then have "rd (fsub now 1704067200 / 86400) \<le> rd (- 1)" by (rule rd_mono)
  moreover have "rd (- 1) = - 1" using rd_of_int [of "- 1"] by simp
  ultimately show ?thesis by (simp add: elapsed_days_double_def fdiv_def)
qed

lemma growth_increment_overflow:
  assumes r: "2 ^ 1023 \<le> annual_growth_rate cd" "annual_growth_rate cd \<le> 2 ^ 1024"
    and b: "2 ^ 25 \<le> base_population cd" "base_population cd \<le> 2 ^ 53"
    and d: "d \<le> - 1" "- (2 ^ 63) \<le> d"
  shows "growth_increment_checked cd (Fin d) = Inr NInf"
proof -
  define B where "B = float_of_int (base_population cd)"
  define x1 where "x1 = rd (annual_growth_rate cd / 100)"
  define y where "y = rd (d / (1461 / 4))"
  have ab: "\<bar>base_population cd\<bar> \<le> 2 ^ 53" using b by simp
  have pb: "pf_of_int (base_population cd) = Inr (Fin B)"
    unfolding B_def using ab by (rule pf_of_int_fin) simp
  have "(of_int (2 ^ 25) :: rat) \<le> of_int (base_population cd)"
    using b(1) by (simp only: of_int_le_iff)
  then have "rd (2 ^ 25) \<le> rd (of_int (base_population cd))" by (intro rd_mono) simp
  then have B: "2 ^ 25 \<le> B" by (simp only: rd_pow2 B_def float_of_int_def)
  have "\<bar>annual_growth_rate cd / 100\<bar> \<le> 2 ^ 1018" using r by simp
  then have p1: "pf_round (annual_growth_rate cd / 100) = Fin x1"
    unfolding x1_def by (rule pf_round_fin) simp
  have "(2 :: rat) ^ 1016 \<le> annual_growth_rate cd / 100" using r(1) by simp
  then have "rd (2 ^ 1016) \<le> rd (annual_growth_rate cd / 100)" by (rule rd_mono)
  then have x1: "2 ^ 1016 \<le> x1" by (simp only: rd_pow2 x1_def)
  have "(2 :: rat) ^ 1016 * 2 ^ 25 \<le> x1 * B" using x1 B by (intro mult_mono) simp_all
  then have "(2 :: rat) ^ 1024 \<le> x1 * B" by simp
  then have "rd (2 ^ 1024) \<le> rd (x1 * B)" by (rule rd_mono)
  then have "2 ^ 1024 \<le> rd (x1 * B)" by (simp only: rd_pow2)
  then have p3: "pf_round (x1 * B) = PInf" by (simp add: pf_round_def Let_def)
  have "\<bar>d\<bar> \<le> 2 ^ 63" using d by simp
  then have "\<bar>d / (1461 / 4)\<bar> \<le> 2 ^ 63 / (1461 / 4)" by (intro abs_div_le) simp_all
  then have "\<bar>d / (1461 / 4)\<bar> \<le> 2 ^ 63" by simp
  then have py: "pf_round (d / (1461 / 4)) = Fin y"
    unfolding y_def by (rule pf_round_fin) simp
  have "d / (1461 / 4) \<le> - (1 / 2 ^ 9)" using d(1) by simp
  then have "rd (d / (1461 / 4)) \<le> rd (- (1 / 2 ^ 9))" by (rule rd_mono)
  moreover have "rd (- (1 / 2 ^ 9)) = - (1 / 2 ^ 9)"
    using rd_exact [of "- 1" "- 9"] by (simp add: power_int_minus)
  ultimately have y: "y < 0" by (simp add: y_def)
  show ?thesis
    unfolding growth_increment_checked_def float_consts pb sum.case pf_div.simps p1
      pf_mul.simps p3 py
    using y by (simp add: signed_inf_def)
qed

lemma grown_population_overflow:
  assumes "\<bar>base_population cd\<bar> \<le> 2 ^ 53"
  shows "grown_population_checked cd NInf = Inl OverflowError"
proof -
  have "pf_of_int (base_population cd) = Inr (Fin (float_of_int (base_population cd)))"
    using assms by (rule pf_of_int_fin) simp
  then show ?thesis by (simp add: grown_population_checked_def)
qed

lemma checked_overflow:
  assumes r: "2 ^ 1023 \<le> annual_growth_rate (south_korea_data self)"
    "annual_growth_rate (south_korea_data self) \<le> 2 ^ 1024"
    and b: "2 ^ 25 \<le> base_population (south_korea_data self)"
    "base_population (south_korea_data self) \<le> 2 ^ 53"
    and nk: "moderate (north_korea_data self)"
    and t: "now \<le> 1704067200 - 86400" "- (2 ^ 62) \<le> now"
  shows "calculate_current_population_checked self now now_date now_secs =
           Inl OverflowError"
proof -
  define d where "d = elapsed_days_double now"
  have "\<bar>now - 1704067200\<bar> \<le> 2 ^ 63" using t by simp
  note ed = elapsed_days_checked [OF this, folded d_def]
  have d1: "d \<le> - 1" unfolding d_def using t(1) by (rule elapsed_days_before)
  have d2: "- (2 ^ 63) \<le> d" using ed(2) by simp
  have gs: "growth_increment_checked (south_korea_data self) (Fin d) = Inr NInf"
    using r b d1 d2 by (rule growth_increment_overflow)
  have bn: "\<bar>base_population (north_korea_data self)\<bar> \<le> 2 ^ 53"
    "\<bar>annual_growth_rate (north_korea_data self)\<bar> \<le> 2 ^ 53"
    using nk by (simp_all add: moderate_def)
  note gn = growth_increment_checked_eq [OF bn ed(2)]
  have "\<bar>base_population (south_korea_data self)\<bar> \<le> 2 ^ 53" using b by simp
  then have ps: "grown_population_checked (south_korea_data self) NInf = Inl OverflowError"
    by (rule grown_population_overflow)
  show ?thesis
    unfolding calculate_current_population_checked_def Let_def epoch_timestamp float_consts
    by (simp add: ed(1) gs gn(1) ps)
qed

section \<open>The administrative update: frame properties\<close>

lemma py_lower_south_korea: "py_lower ''south_korea'' = ''south_korea''"
  by code_simp

lemma py_lower_japan:
  "py_lower ''Japan'' \<noteq> ''south_korea'' \<and> py_lower ''Japan'' \<noteq> ''north_korea''"
  by code_simp

lemma update_fields_omitted:
  "new_births nd = None \<Longrightarrow> annual_births (update_fields cd nd) = annual_births cd"
  "new_deaths nd = None \<Longrightarrow> annual_deaths (update_fields cd nd) = annual_deaths cd"
  "new_growth_rate nd = None \<Longrightarrow>
     annual_growth_rate (update_fields cd nd) = annual_growth_rate cd"
  "new_date nd = None \<Longrightarrow> base_date (update_fields cd nd) = base_date cd"
  by (simp_all add: update_fields_def dict_get_def)

lemma update_base_data_south:
  "south_korea_data (update_base_data self country nd) =
     (if py_lower country = ''south_korea'' then update_fields (south_korea_data self) nd
      else south_korea_data self)"
  by (simp add: update_base_data_def Let_def)

lemma update_base_data_north:
  "north_korea_data (update_base_data self country nd) =
     (if py_lower country \<noteq> ''south_korea'' \<and> py_lower country = ''north_korea''
      then update_fields (north_korea_data self) nd
      else north_korea_data self)"
  by (simp add: update_base_data_def Let_def)

lemma calculate_births_deaths:
  "sk_births_today (snd (calculate_current_population self t d1 d2)) =
     events_today (annual_births (south_korea_data self))
       (int_truediv (get_seconds_since_midnight_kst d2) (24 * 60 * 60))"
  "sk_deaths_today (snd (calculate_current_population self t d1 d2)) =
     events_today (annual_deaths (south_korea_data self))
       (int_truediv (get_seconds_since_midnight_kst d2) (24 * 60 * 60))"
  "nk_births_today (snd (calculate_current_population self t d1 d2)) =
     events_today (annual_births (north_korea_data self))
       (int_truediv (get_seconds_since_midnight_kst d2) (24 * 60 * 60))"
  "nk_deaths_today (snd (calculate_current_population self t d1 d2)) =
     events_today (annual_deaths (north_korea_data self))
       (int_truediv (get_seconds_since_midnight_kst d2) (24 * 60 * 60))"
  by (simp_all add: calculate_current_population_def Let_def)

text \<open>
  C7. A key that the dictionary of an administrative update omits (\<open>births\<close>, \<open>deaths\<close>,
  \<open>growth_rate\<close>, \<open>date\<close>) leaves that field of both countries' \<open>CountryData\<close> as it was.
  When \<open>births\<close> and \<open>deaths\<close> are omitted, as in an update of the growth rate alone, the
  four counts of today that \<open>calculate_current_population\<close> returns are the same before and
  after the update, for every reading of the clock. An update of one country leaves the
  other country's \<open>CountryData\<close> as it was.
\<close>

theorem update_base_data_frame:
  assumes "self' = update_base_data self country new_data"
  shows "(new_births new_data = None \<longrightarrow>
            annual_births (south_korea_data self') = annual_births (south_korea_data self) \<and>
            annual_births (north_korea_data self') = annual_births (north_korea_data self)) \<and>
         (new_deaths new_data = None \<longrightarrow>
            annual_deaths (south_korea_data self') = annual_deaths (south_korea_data self) \<and>
            annual_deaths (north_korea_data self') = annual_deaths (north_korea_data self)) \<and>
         (new_growth_rate new_data = None \<longrightarrow>
            annual_growth_rate (south_korea_data self') =
              annual_growth_rate (south_korea_data self) \<and>
            annual_growth_rate (north_korea_data self') =
              annual_growth_rate (north_korea_data self)) \<and>
         (new_date new_data = None \<longrightarrow>
            base_date (south_korea_data self') = base_date (south_korea_data self) \<and>
            base_date (north_korea_data self') = base_date (north_korea_data self)) \<and>
         (new_births new_data = None \<longrightarrow> new_deaths new_data = None \<longrightarrow>
            sk_births_today (snd (calculate_current_population self' t d1 d2)) =
              sk_births_today (snd (calculate_current_population self t d1 d2)) \<and>
            sk_deaths_today (snd (calculate_current_population self' t d1 d2)) =
              sk_deaths_today (snd (calculate_current_population self t d1 d2)) \<and>
            nk_births_today (snd (calculate_current_population self' t d1 d2)) =
              nk_births_today (snd (calculate_current_population self t d1 d2)) \<and>
            nk_deaths_today (snd (calculate_current_population self' t d1 d2)) =
              nk_deaths_today (snd (calculate_current_population self t d1 d2))) \<and>
         (py_lower country = ''south_korea'' \<longrightarrow>
            north_korea_data self' = north_korea_data self) \<and>
         (py_lower country = ''north_korea'' \<longrightarrow>
            south_korea_data self' = south_korea_data self)"
  unfolding assms
  by (simp add: update_base_data_south update_base_data_north update_fields_omitted
      calculate_births_deaths)

theorem update_base_data_frame_witness:
  "new_births growth_only = None \<and> new_deaths growth_only = None \<and>
   py_lower ''south_korea'' = ''south_korea'' \<and>
   annual_births
     (south_korea_data (update_base_data example_manager ''south_korea'' growth_only)) =
     216215 \<and>
   annual_deaths
     (south_korea_data (update_base_data example_manager ''south_korea'' growth_only)) =
     325162 \<and>
   north_korea_data (update_base_data example_manager ''south_korea'' growth_only) =
     north_korea_data example_manager"
  using update_base_data_frame [OF refl, of growth_only example_manager "''south_korea''"]
  by (simp add: growth_only_def py_lower_south_korea example_manager_def add_client_def
      init_def initial_south_korea_data_def Let_def)

text \<open>
  C10. For a country string whose lower-case form is neither \<open>south_korea\<close> nor
  \<open>north_korea\<close>, \<open>update_base_data\<close> returns the manager as it was: both countries'
  \<open>CountryData\<close> and the per-second rates are those of before. No operation on this path
  can raise.
\<close>

theorem update_base_data_unknown_country:
  "py_lower country \<noteq> ''south_korea'' \<Longrightarrow> py_lower country \<noteq> ''north_korea'' \<Longrightarrow>
     update_base_data self country new_data = self"
  by (simp add: update_base_data_def)

theorem update_base_data_unknown_country_witness:
  "py_lower ''Japan'' \<noteq> ''south_korea'' \<and> py_lower ''Japan'' \<noteq> ''north_korea'' \<and>
   update_base_data example_manager ''Japan'' growth_only = example_manager"
  using update_base_data_unknown_country [of "''Japan''" example_manager growth_only]
    py_lower_japan
  by simp

section \<open>The estimator: the claims\<close>

lemma sk_rate_value: "float_lit (- (21 / 100)) = - (7566047373982433 / 36028797018963968)"
proof -
  have s1: "float_lit (- (21 / 100)) = - (7566047373982433 / 36028797018963968)"
    unfolding float_lit_def
    by (rule rd_eval [where e = "- 3" and n = "- 7566047373982433"]) simp_all
  show ?thesis by (rule s1)
qed

lemma nk_rate_value: "float_lit (2 / 5) = 3602879701896397 / 9007199254740992"
proof -
  have s1: "float_lit (2 / 5) = 3602879701896397 / 9007199254740992"
    unfolding float_lit_def
    by (rule rd_eval [where e = "- 2" and n = "7205759403792794"]) simp_all
  show ?thesis by (rule s1)
qed

lemma sk_one_year:
  "population_double 51628117 (float_lit (- (21 / 100))) 1735624800 = 51519697"
proof -
  have s1: "float_lit (- (21 / 100)) = - (7566047373982433 / 36028797018963968)"
    unfolding float_lit_def
    by (rule rd_eval [where e = "- 3" and n = "- 7566047373982433"]) simp_all
  have s2: "fdiv (- (7566047373982433 / 36028797018963968)) 100 = - (4842270319348757 / 2305843009213693952)"
    unfolding fdiv_def
    by (rule rd_eval [where e = "- 9" and n = "- 4842270319348757"]) simp_all
  have s3: "float_of_int 51628117 = 51628117"
    unfolding float_of_int_def
    by (rule rd_eval [where e = "25" and n = "6929408564658176"]) simp_all
  have s4: "fmul (- (4842270319348757 / 2305843009213693952)) 51628117 = - (3725250044360235 / 34359738368)"
    unfolding fmul_def
    by (rule rd_eval [where e = "16" and n = "- 7450500088720470"]) simp_all
  have s5: "fsub 1735624800 1704067200 = 31557600"
    unfolding fsub_def
    by (rule rd_eval [where e = "24" and n = "8471178746265600"]) simp_all
  have s6: "fdiv 31557600 86400 = 1461 / 4"
    unfolding fdiv_def
    by (rule rd_eval [where e = "8" and n = "6425545952722944"]) simp_all
  have s7: "fdiv (1461 / 4) (1461 / 4) = 1"
    unfolding fdiv_def
    by (rule rd_eval [where e = "0" and n = "4503599627370496"]) simp_all
  have s8: "fmul (- (3725250044360235 / 34359738368)) 1 = - (3725250044360235 / 34359738368)"
    unfolding fmul_def
    by (rule rd_eval [where e = "16" and n = "- 7450500088720470"]) simp_all
  have s9: "fadd 51628117 (- (3725250044360235 / 34359738368)) = 3457428403336197 / 67108864"
    unfolding fadd_def
    by (rule rd_eval [where e = "25" and n = "6914856806672394"]) simp_all
  show ?thesis
    unfolding population_double_def elapsed_days_double_def
    by (simp only: s1 s2 s3 s4 s5 s6 s7 s8 s9) (rule py_int_eval(1); simp)
qed

lemma sk_day_before:
  "population_double 51628117 (float_lit (- (21 / 100))) 1703980800 = 51628413"
proof -
  have s1: "float_lit (- (21 / 100)) = - (7566047373982433 / 36028797018963968)"
    unfolding float_lit_def
    by (rule rd_eval [where e = "- 3" and n = "- 7566047373982433"]) simp_all
  have s2: "fdiv (- (7566047373982433 / 36028797018963968)) 100 = - (4842270319348757 / 2305843009213693952)"
    unfolding fdiv_def
    by (rule rd_eval [where e = "- 9" and n = "- 4842270319348757"]) simp_all
  have s3: "float_of_int 51628117 = 51628117"
    unfolding float_of_int_def
    by (rule rd_eval [where e = "25" and n = "6929408564658176"]) simp_all
  have s4: "fmul (- (4842270319348757 / 2305843009213693952)) 51628117 = - (3725250044360235 / 34359738368)"
    unfolding fmul_def
    by (rule rd_eval [where e = "16" and n = "- 7450500088720470"]) simp_all
  have s5: "fsub 1703980800 1704067200 = - 86400"
    unfolding fsub_def
    by (rule rd_eval [where e = "16" and n = "- 5937362789990400"]) simp_all
  have s6: "fdiv (- 86400) 86400 = - 1"
    unfolding fdiv_def
    by (rule rd_eval [where e = "0" and n = "- 4503599627370496"]) simp_all
  have s7: "fdiv (- 1) (1461 / 4) = - (6313054097778765 / 2305843009213693952)"
    unfolding fdiv_def
    by (rule rd_eval [where e = "- 9" and n = "- 6313054097778765"]) simp_all
  have s8: "fmul (- (3725250044360235 / 34359738368)) (- (6313054097778765 / 2305843009213693952)) = 5221979528302369 / 17592186044416"
    unfolding fmul_def
    by (rule rd_eval [where e = "8" and n = "5221979528302369"]) simp_all
  have s9: "fadd 51628117 (5221979528302369 / 17592186044416) = 866181050650029 / 16777216"
    unfolding fadd_def
    by (rule rd_eval [where e = "25" and n = "6929448405200232"]) simp_all
  show ?thesis
    unfolding population_double_def elapsed_days_double_def
    by (simp only: s1 s2 s3 s4 s5 s6 s7 s8 s9) (rule py_int_eval(1); simp)
qed

lemma nk_instant_before:
  "population_double 25971909 (float_lit (2 / 5)) (7147375873228799 / 4194304) = 25971909"
proof -
  have s1: "float_lit (2 / 5) = 3602879701896397 / 9007199254740992"
    unfolding float_lit_def
    by (rule rd_eval [where e = "- 2" and n = "7205759403792794"]) simp_all
  have s2: "fdiv (3602879701896397 / 9007199254740992) 100 = 1152921504606847 / 288230376151711744"
    unfolding fdiv_def
    by (rule rd_eval [where e = "- 8" and n = "4611686018427388"]) simp_all
  have s3: "float_of_int 25971909 = 25971909"
    unfolding float_of_int_def
    by (rule rd_eval [where e = "24" and n = "6971781235605504"]) simp_all
  have s4: "fmul (1152921504606847 / 288230376151711744) 25971909 = 1784775996315009 / 17179869184"
    unfolding fmul_def
    by (rule rd_eval [where e = "16" and n = "7139103985260036"]) simp_all
  have s5: "fsub (7147375873228799 / 4194304) 1704067200 = - (1 / 4194304)"
    unfolding fsub_def
    by (rule rd_eval [where e = "- 22" and n = "- 4503599627370496"]) simp_all
  have s6: "fdiv (- (1 / 4194304)) 86400 = - (6832127434707241 / 2475880078570760549798248448)"
    unfolding fdiv_def
    by (rule rd_eval [where e = "- 39" and n = "- 6832127434707241"]) simp_all
  have s7: "fdiv (- (6832127434707241 / 2475880078570760549798248448)) (1461 / 4) = - (4788568441574411 / 633825300114114700748351602688)"
    unfolding fdiv_def
    by (rule rd_eval [where e = "- 47" and n = "- 4788568441574411"]) simp_all
  have s8: "fmul (1784775996315009 / 17179869184) (- (4788568441574411 / 633825300114114700748351602688)) = - (474427275866861 / 604462909807314587353088)"
    unfolding fmul_def
    by (rule rd_eval [where e = "- 31" and n = "- 7590836413869776"]) simp_all
  have s9: "fadd 25971909 (- (474427275866861 / 604462909807314587353088)) = 25971909"
    unfolding fadd_def
    by (rule rd_eval [where e = "24" and n = "6971781235605504"]) simp_all
  show ?thesis
    unfolding population_double_def elapsed_days_double_def
    by (simp only: s1 s2 s3 s4 s5 s6 s7 s8 s9) (rule py_int_eval(1); simp)
qed

lemma negative_base_epoch:
  "population_double (- 1000000) (float_lit (2 / 5)) 1704067200 = - 1000000"
proof -
  have s1: "float_lit (2 / 5) = 3602879701896397 / 9007199254740992"
    unfolding float_lit_def
    by (rule rd_eval [where e = "- 2" and n = "7205759403792794"]) simp_all
  have s2: "fdiv (3602879701896397 / 9007199254740992) 100 = 1152921504606847 / 288230376151711744"
    unfolding fdiv_def
    by (rule rd_eval [where e = "- 8" and n = "4611686018427388"]) simp_all
  have s3: "float_of_int (- 1000000) = - 1000000"
    unfolding float_of_int_def
    by (rule rd_eval [where e = "19" and n = "- 8589934592000000"]) simp_all
  have s4: "fmul (1152921504606847 / 288230376151711744) (- 1000000) = - 4000"
    unfolding fmul_def
    by (rule rd_eval [where e = "11" and n = "- 8796093022208000"]) simp_all
  have s5: "fsub 1704067200 1704067200 = 0"
    by (simp add: fsub_def rd_0)
  have s6: "fdiv 0 86400 = 0"
    by (simp add: fdiv_def rd_0)
  have s7: "fdiv 0 (1461 / 4) = 0"
    by (simp add: fdiv_def rd_0)
  have s8: "fmul (- 4000) 0 = 0"
    by (simp add: fmul_def rd_0)
  have s9: "fadd (- 1000000) 0 = - 1000000"
    unfolding fadd_def
    by (rule rd_eval [where e = "19" and n = "- 8589934592000000"]) simp_all
  show ?thesis
    unfolding population_double_def elapsed_days_double_def
    by (simp only: s1 s2 s3 s4 s5 s6 s7 s8 s9) (rule py_int_eval(2); simp)
qed

lemma negative_base_one_year:
  "population_double (- 1000000) (float_lit (2 / 5)) 1735624800 = - 1004000"
proof -
  have s1: "float_lit (2 / 5) = 3602879701896397 / 9007199254740992"
    unfolding float_lit_def
    by (rule rd_eval [where e = "- 2" and n = "7205759403792794"]) simp_all
  have s2: "fdiv (3602879701896397 / 9007199254740992) 100 = 1152921504606847 / 288230376151711744"
    unfolding fdiv_def
    by (rule rd_eval [where e = "- 8" and n = "4611686018427388"]) simp_all
  have s3: "float_of_int (- 1000000) = - 1000000"
    unfolding float_of_int_def
    by (rule rd_eval [where e = "19" and n = "- 8589934592000000"]) simp_all
  have s4: "fmul (1152921504606847 / 288230376151711744) (- 1000000) = - 4000"
    unfolding fmul_def
    by (rule rd_eval [where e = "11" and n = "- 8796093022208000"]) simp_all
  have s5: "fsub 1735624800 1704067200 = 31557600"
    unfolding fsub_def
    by (rule rd_eval [where e = "24" and n = "8471178746265600"]) simp_all
  have s6: "fdiv 31557600 86400 = 1461 / 4"
    unfolding fdiv_def
    by (rule rd_eval [where e = "8" and n = "6425545952722944"]) simp_all
  have s7: "fdiv (1461 / 4) (1461 / 4) = 1"
    unfolding fdiv_def
    by (rule rd_eval [where e = "0" and n = "4503599627370496"]) simp_all
  have s8: "fmul (- 4000) 1 = - 4000"
    unfolding fmul_def
    by (rule rd_eval [where e = "11" and n = "- 8796093022208000"]) simp_all
  have s9: "fadd (- 1000000) (- 4000) = - 1004000"
    unfolding fadd_def
    by (rule rd_eval [where e = "19" and n = "- 8624294330368000"]) simp_all
  show ?thesis
    unfolding population_double_def elapsed_days_double_def
    by (simp only: s1 s2 s3 s4 s5 s6 s7 s8 s9) (rule py_int_eval(2); simp)
qed

lemma py_lower_north_korea:
  "py_lower ''north_korea'' \<noteq> ''south_korea''" "py_lower ''north_korea'' = ''north_korea''"
  by code_simp+

lemma example_manager_data:
  "south_korea_data example_manager = initial_south_korea_data"
  "north_korea_data example_manager = initial_north_korea_data"
  by (simp_all add: example_manager_def add_client_def init_def Let_def)

lemma initial_data_fields:
  "base_population initial_south_korea_data = 51628117"
  "annual_growth_rate initial_south_korea_data = float_lit (- (21 / 100))"
  "base_population initial_north_korea_data = 25971909"
  "annual_growth_rate initial_north_korea_data = float_lit (4 / 10)"
  by (simp_all add: initial_south_korea_data_def initial_north_korea_data_def)

lemma calculate_seconds:
  "seconds_since_midnight_kst (snd (calculate_current_population self t d1 d2)) =
     get_seconds_since_midnight_kst d2"
  by (simp add: calculate_current_population_def Let_def)

lemma births_7200:
  "events_today 7200 (int_truediv 48213 86400) = 10"
proof -
  have s1: "int_truediv 48213 86400 = 5026204834129947 / 9007199254740992"
    unfolding int_truediv_def
    by (rule rd_eval [where e = "- 1" and n = "5026204834129947"]) simp_all
  have s2: "float_of_int 7200 = 7200"
    unfolding float_of_int_def
    by (rule rd_eval [where e = "12" and n = "7916483719987200"]) simp_all
  have s3: "fmul 7200 (5026204834129947 / 9007199254740992) = 8835125684994047 / 2199023255552"
    unfolding fmul_def
    by (rule rd_eval [where e = "11" and n = "8835125684994047"]) simp_all
  have s4: "fdiv (8835125684994047 / 2199023255552) (1461 / 4) = 6192449487634431 / 562949953421312"
    unfolding fdiv_def
    by (rule rd_eval [where e = "3" and n = "6192449487634431"]) simp_all
  show ?thesis
    unfolding events_today_def float_consts
    by (simp only: s1 s2 s3 s4) (rule py_int_eval(1); simp)
qed

lemma sk_instant_after:
  "population_double 51628117 (float_lit (- (21 / 100))) (7147375873228801 / 4194304) = 51628117"
proof -
  have s1: "float_lit (- (21 / 100)) = - (7566047373982433 / 36028797018963968)"
    unfolding float_lit_def
    by (rule rd_eval [where e = "- 3" and n = "- 7566047373982433"]) simp_all
  have s2: "fdiv (- (7566047373982433 / 36028797018963968)) 100 = - (4842270319348757 / 2305843009213693952)"
    unfolding fdiv_def
    by (rule rd_eval [where e = "- 9" and n = "- 4842270319348757"]) simp_all
  have s3: "float_of_int 51628117 = 51628117"
    unfolding float_of_int_def
    by (rule rd_eval [where e = "25" and n = "6929408564658176"]) simp_all
  have s4: "fmul (- (4842270319348757 / 2305843009213693952)) 51628117 = - (3725250044360235 / 34359738368)"
    unfolding fmul_def
    by (rule rd_eval [where e = "16" and n = "- 7450500088720470"]) simp_all
  have s5: "fsub (7147375873228801 / 4194304) 1704067200 = 1 / 4194304"
    unfolding fsub_def
    by (rule rd_eval [where e = "- 22" and n = "4503599627370496"]) simp_all
  have s6: "fdiv (1 / 4194304) 86400 = 6832127434707241 / 2475880078570760549798248448"
    unfolding fdiv_def
    by (rule rd_eval [where e = "- 39" and n = "6832127434707241"]) simp_all
  have s7: "fdiv (6832127434707241 / 2475880078570760549798248448) (1461 / 4) = 4788568441574411 / 633825300114114700748351602688"
    unfolding fdiv_def
    by (rule rd_eval [where e = "- 47" and n = "4788568441574411"]) simp_all
  have s8: "fmul (- (3725250044360235 / 34359738368)) (4788568441574411 / 633825300114114700748351602688) = - (3960968175541945 / 4835703278458516698824704)"
    unfolding fmul_def
    by (rule rd_eval [where e = "- 31" and n = "- 7921936351083890"]) simp_all
  have s9: "fadd 51628117 (- (3960968175541945 / 4835703278458516698824704)) = 51628117"
    unfolding fadd_def
    by (rule rd_eval [where e = "25" and n = "6929408564658176"]) simp_all
  show ?thesis
    unfolding population_double_def elapsed_days_double_def
    by (simp only: s1 s2 s3 s4 s5 s6 s7 s8 s9) (rule py_int_eval(1); simp)
qed

lemma nk_annual_births_value:
  "py_int (fdiv (fmul (float_of_int 25971909) (float_lit (66 / 5))) (float_of_int 1000)) = 342829"
proof -
  have s1: "float_of_int 25971909 = 25971909"
    unfolding float_of_int_def
    by (rule rd_eval [where e = "24" and n = "6971781235605504"]) simp_all
  have s2: "float_lit (66 / 5) = 3715469692580659 / 281474976710656"
    unfolding float_lit_def
    by (rule rd_eval [where e = "3" and n = "7430939385161318"]) simp_all
  have s3: "fmul 25971909 (3715469692580659 / 281474976710656) = 1437929879843635 / 4194304"
    unfolding fmul_def
    by (rule rd_eval [where e = "28" and n = "5751719519374540"]) simp_all
  have s4: "float_of_int 1000 = 1000"
    unfolding float_of_int_def
    by (rule rd_eval [where e = "9" and n = "8796093022208000"]) simp_all
  have s5: "fdiv (1437929879843635 / 4194304) 1000 = 5889760787839529 / 17179869184"
    unfolding fdiv_def
    by (rule rd_eval [where e = "18" and n = "5889760787839529"]) simp_all
  show ?thesis
    by (simp only: s1 s2 s3 s4 s5) (rule py_int_eval(1); simp)
qed

lemma nk_annual_deaths_value:
  "py_int (fdiv (fmul (float_of_int 25971909) (float_lit (46 / 5))) (float_of_int 1000)) = 238941"
proof -
  have s1: "float_of_int 25971909 = 25971909"
    unfolding float_of_int_def
    by (rule rd_eval [where e = "24" and n = "6971781235605504"]) simp_all
  have s2: "float_lit (46 / 5) = 2589569785738035 / 281474976710656"
    unfolding float_lit_def
    by (rule rd_eval [where e = "3" and n = "5179139571476070"]) simp_all
  have s3: "fmul 25971909 (2589569785738035 / 281474976710656) = 8017548420946329 / 33554432"
    unfolding fmul_def
    by (rule rd_eval [where e = "27" and n = "8017548420946329"]) simp_all
  have s4: "float_of_int 1000 = 1000"
    unfolding float_of_int_def
    by (rule rd_eval [where e = "9" and n = "8796093022208000"]) simp_all
  have s5: "fdiv (8017548420946329 / 33554432) 1000 = 8209969583049041 / 34359738368"
    unfolding fdiv_def
    by (rule rd_eval [where e = "17" and n = "8209969583049041"]) simp_all
  show ?thesis
    by (simp only: s1 s2 s3 s4 s5) (rule py_int_eval(1); simp)
qed

lemma initial_annual_values:
  "annual_births initial_south_korea_data = 216215"
  "annual_deaths initial_south_korea_data = 325162"
  "annual_births initial_north_korea_data = 342829"
  "annual_deaths initial_north_korea_data = 238941"
  by (simp_all add: initial_south_korea_data_def initial_north_korea_data_def
      nk_annual_births_value nk_annual_deaths_value)

lemma afternoon_seconds:
  "get_seconds_since_midnight_kst (get_korea_timezone_now 1718425413000000) = 48213"
  "get_seconds_since_midnight_kst (get_korea_timezone_now 1718420400000000) = 43200"
  by (simp_all add: korea_now_seconds)

lemma few_births_data:
  "annual_births
     (south_korea_data (update_base_data example_manager ''south_korea'' few_births)) = 7200"
  by (simp add: update_base_data_south py_lower_south_korea update_fields_def dict_get_def
      few_births_def)

theorem population_formula_counterexample:
  "base_population (south_korea_data example_manager) = 51628117 \<and>
   annual_growth_rate (south_korea_data example_manager) = float_lit (- (21 / 100)) \<and>
   south_korea_population
     (snd (calculate_current_population example_manager (1704067200 + 1 / 4194304)
        (kst_after_epoch 0) (kst_after_epoch 0))) = 51628117 \<and>
   spec_population 51628117 (float_lit (- (21 / 100))) (1704067200 + 1 / 4194304) = 51628116"
proof -
  have "spec_population 51628117 (float_lit (- (21 / 100))) (1704067200 + 1 / 4194304) =
      51628116"
    unfolding spec_population_def
    by (rule truncated_eval)
      (simp_all add: spec_population_value_def spec_elapsed_days_def sk_rate_value)
  then show ?thesis
    by (simp add: calculate_populations example_manager_data initial_data_fields
        sk_instant_after)
qed

text \<open>
  C1, amended. Replacing \<open>base_date\<close> and \<open>base_year\<close> in the data of either country leaves
  both populations as they were: the elapsed days are counted from the fixed epoch
  2024-01-01T00:00:00Z. The population is the formula of the specification,
  \<open>base_population + (annual_growth_rate / 100) * base_population * (elapsed_days / 365.25)\<close>,
  computed in double precision and then truncated: for a time within \<open>2 ^ 32\<close> seconds of the
  epoch, a \<open>base_population\<close> of magnitude at most \<open>2 ^ 33\<close> and an \<open>annual_growth_rate\<close> of
  magnitude at most 100, it lies between the truncations of the exact value minus and plus
  \<open>1 / 256\<close>, so it is the truncation of the exact value unless that value is within
  \<open>1 / 256\<close> of an integer. (One tick of the clock after the epoch the exact value for South
  Korea is just below 51628117 and truncates to 51628116; the code returns 51628117.)
\<close>

theorem population_formula:
  "south_korea_population (snd (calculate_current_population
       (self\<lparr> south_korea_data := (south_korea_data self)\<lparr> base_date := bd, base_year := y \<rparr>,
               north_korea_data := (north_korea_data self)\<lparr> base_date := bd', base_year := y' \<rparr> \<rparr>)
       now d1 d2)) =
     south_korea_population (snd (calculate_current_population self now d1 d2)) \<and>
   north_korea_population (snd (calculate_current_population
       (self\<lparr> south_korea_data := (south_korea_data self)\<lparr> base_date := bd, base_year := y \<rparr>,
               north_korea_data := (north_korea_data self)\<lparr> base_date := bd', base_year := y' \<rparr> \<rparr>)
       now d1 d2)) =
     north_korea_population (snd (calculate_current_population self now d1 d2)) \<and>
   (\<bar>now - 1704067200\<bar> \<le> 2 ^ 32 \<longrightarrow>
      (\<bar>base_population (south_korea_data self)\<bar> \<le> 2 ^ 33 \<longrightarrow>
       \<bar>annual_growth_rate (south_korea_data self)\<bar> \<le> 100 \<longrightarrow>
         population_agrees (base_population (south_korea_data self))
           (annual_growth_rate (south_korea_data self)) now
           (south_korea_population (snd (calculate_current_population self now d1 d2)))) \<and>
      (\<bar>base_population (north_korea_data self)\<bar> \<le> 2 ^ 33 \<longrightarrow>
       \<bar>annual_growth_rate (north_korea_data self)\<bar> \<le> 100 \<longrightarrow>
         population_agrees (base_population (north_korea_data self))
           (annual_growth_rate (north_korea_data self)) now
           (north_korea_population (snd (calculate_current_population self now d1 d2)))))"
  using population_agrees_double [of "base_population (south_korea_data self)"
      "annual_growth_rate (south_korea_data self)" now]
    population_agrees_double [of "base_population (north_korea_data self)"
      "annual_growth_rate (north_korea_data self)" now]
  by (simp add: calculate_populations)

theorem population_formula_witness:
  "\<bar>1735624800 - 1704067200 :: rat\<bar> \<le> 2 ^ 32 \<and>
   \<bar>base_population (south_korea_data example_manager)\<bar> \<le> 2 ^ 33 \<and>
   \<bar>annual_growth_rate (south_korea_data example_manager)\<bar> \<le> 100 \<and>
   truncated (spec_population_value 51628117 (float_lit (- (21 / 100))) 1735624800 - 1 / 256) =
     truncated (spec_population_value 51628117 (float_lit (- (21 / 100))) 1735624800 + 1 / 256) \<and>
   south_korea_population
     (snd (calculate_current_population example_manager 1735624800 one_year_kst one_year_kst)) =
     spec_population 51628117 (float_lit (- (21 / 100))) 1735624800 \<and>
   spec_population 51628117 (float_lit (- (21 / 100))) 1735624800 = 51519697"
proof -
  have h: "\<bar>1735624800 - 1704067200 :: rat\<bar> \<le> 2 ^ 32"
    "\<bar>base_population (south_korea_data example_manager)\<bar> \<le> 2 ^ 33"
    "\<bar>annual_growth_rate (south_korea_data example_manager)\<bar> \<le> 100"
    by (simp_all add: example_manager_data initial_data_fields sk_rate_value)
  have t1: "truncated
      (spec_population_value 51628117 (float_lit (- (21 / 100))) 1735624800 - 1 / 256) =
      51519697"
    by (rule truncated_eval)
      (simp_all add: spec_population_value_def spec_elapsed_days_def sk_rate_value)
  have t2: "truncated
      (spec_population_value 51628117 (float_lit (- (21 / 100))) 1735624800 + 1 / 256) =
      51519697"
    by (rule truncated_eval)
      (simp_all add: spec_population_value_def spec_elapsed_days_def sk_rate_value)
  have t3: "spec_population 51628117 (float_lit (- (21 / 100))) 1735624800 = 51519697"
    unfolding spec_population_def
    by (rule truncated_eval)
      (simp_all add: spec_population_value_def spec_elapsed_days_def sk_rate_value)
  note t = population_formula [where self = example_manager and now = 1735624800
      and ?d1.0 = one_year_kst and ?d2.0 = one_year_kst]
  from t have "\<bar>1735624800 - 1704067200 :: rat\<bar> \<le> 2 ^ 32 \<longrightarrow>
      (\<bar>base_population (south_korea_data example_manager)\<bar> \<le> 2 ^ 33 \<longrightarrow>
       \<bar>annual_growth_rate (south_korea_data example_manager)\<bar> \<le> 100 \<longrightarrow>
         population_agrees (base_population (south_korea_data example_manager))
           (annual_growth_rate (south_korea_data example_manager)) 1735624800
           (south_korea_population
              (snd (calculate_current_population example_manager 1735624800 one_year_kst
                 one_year_kst))))"
    by blast
  with h have "population_agrees (base_population (south_korea_data example_manager))
           (annual_growth_rate (south_korea_data example_manager)) 1735624800
           (south_korea_population
              (snd (calculate_current_population example_manager 1735624800 one_year_kst
                 one_year_kst)))"
    by blast
  then have r: "south_korea_population
     (snd (calculate_current_population example_manager 1735624800 one_year_kst one_year_kst)) =
     spec_population 51628117 (float_lit (- (21 / 100))) 1735624800"
    unfolding population_agrees_def Let_def example_manager_data initial_data_fields t1 t2
    by simp
  show ?thesis
    unfolding t1 t2 r t3 using h by simp
qed

theorem births_today_floor_counterexample:
  "annual_births
     (south_korea_data (update_base_data example_manager ''south_korea'' few_births)) =
     7200 \<and>
   seconds_since_midnight_kst
     (snd (calculate_current_population
        (update_base_data example_manager ''south_korea'' few_births)
        1718425413 (get_korea_timezone_now 1718425413000000)
        (get_korea_timezone_now 1718425413000000))) = 48213 \<and>
   sk_births_today
     (snd (calculate_current_population
        (update_base_data example_manager ''south_korea'' few_births)
        1718425413 (get_korea_timezone_now 1718425413000000)
        (get_korea_timezone_now 1718425413000000))) = 10 \<and>
   spec_events_today 7200 48213 = 11"
  by (simp add: calculate_births_deaths calculate_seconds afternoon_seconds few_births_data
      births_7200 spec_events_today_def spec_events_value_def spec_day_fraction_def)

text \<open>
  C2, amended. The seconds since local midnight of the snapshot are those of the clock
  reading in UTC+9, \<open>(unix_seconds + 32400) mod 86400\<close>. Each of the four counts of today is
  \<open>annual * day_fraction / 365.25\<close>, with \<open>day_fraction\<close> those seconds over 86400, computed
  in double precision and then truncated toward zero: for an annual figure of magnitude at
  most \<open>2 ^ 40\<close> it lies between the truncations of the exact value minus and plus
  \<open>1 / 2 ^ 19\<close>, and for an annual figure that is not negative it is the floor that the
  specification writes unless the exact value is within \<open>1 / 2 ^ 19\<close> of an integer. (For
  7200 births a year at 13:23:33 the exact value is 11 and the code returns 10.)
\<close>

theorem births_deaths_today:
  assumes "st = snd (calculate_current_population self current_time now_date
                       (get_korea_timezone_now clock_us))"
    and "\<bar>annual_births (south_korea_data self)\<bar> \<le> 2 ^ 40"
    and "\<bar>annual_deaths (south_korea_data self)\<bar> \<le> 2 ^ 40"
    and "\<bar>annual_births (north_korea_data self)\<bar> \<le> 2 ^ 40"
    and "\<bar>annual_deaths (north_korea_data self)\<bar> \<le> 2 ^ 40"
  shows
   "seconds_since_midnight_kst st = (clock_us div 1000000 + 32400) mod 86400 \<and>
    events_agree (annual_births (south_korea_data self)) (seconds_since_midnight_kst st)
      (sk_births_today st) \<and>
    events_agree (annual_deaths (south_korea_data self)) (seconds_since_midnight_kst st)
      (sk_deaths_today st) \<and>
    events_agree (annual_births (north_korea_data self)) (seconds_since_midnight_kst st)
      (nk_births_today st) \<and>
    events_agree (annual_deaths (north_korea_data self)) (seconds_since_midnight_kst st)
      (nk_deaths_today st)"
proof -
  define secs where "secs = (clock_us div 1000000 + 32400) mod 86400"
  have s: "0 \<le> secs" "secs \<le> 86400" by (simp_all add: secs_def)
  have g: "get_seconds_since_midnight_kst (get_korea_timezone_now clock_us) = secs"
    by (simp add: korea_now_seconds secs_def)
  show ?thesis
    unfolding assms(1) calculate_births_deaths calculate_seconds g
    using events_agree_double [OF assms(2) s] events_agree_double [OF assms(3) s]
      events_agree_double [OF assms(4) s] events_agree_double [OF assms(5) s]
    by (simp add: secs_def)
qed

theorem births_deaths_today_witness:
  "\<bar>annual_births (south_korea_data example_manager)\<bar> \<le> 2 ^ 40 \<and>
   \<bar>annual_deaths (south_korea_data example_manager)\<bar> \<le> 2 ^ 40 \<and>
   \<bar>annual_births (north_korea_data example_manager)\<bar> \<le> 2 ^ 40 \<and>
   \<bar>annual_deaths (north_korea_data example_manager)\<bar> \<le> 2 ^ 40 \<and>
   seconds_since_midnight_kst
     (snd (calculate_current_population example_manager 1718420400 noon_kst
        (get_korea_timezone_now 1718420400000000))) = 43200 \<and>
   (0 :: int) \<le> 216215 \<and>
   \<lfloor>spec_events_value 216215 43200 - 1 / 2 ^ 19\<rfloor> =
     \<lfloor>spec_events_value 216215 43200 + 1 / 2 ^ 19\<rfloor> \<and>
   sk_births_today
     (snd (calculate_current_population example_manager 1718420400 noon_kst
        (get_korea_timezone_now 1718420400000000))) = spec_events_today 216215 43200 \<and>
   spec_events_today 216215 43200 = 295"
proof -
  have b: "\<bar>annual_births (south_korea_data example_manager)\<bar> \<le> 2 ^ 40"
    "\<bar>annual_deaths (south_korea_data example_manager)\<bar> \<le> 2 ^ 40"
    "\<bar>annual_births (north_korea_data example_manager)\<bar> \<le> 2 ^ 40"
    "\<bar>annual_deaths (north_korea_data example_manager)\<bar> \<le> 2 ^ 40"
    by (simp_all add: example_manager_data initial_annual_values)
  have v: "spec_events_value 216215 43200 = 432430 / 1461"
    by (simp add: spec_events_value_def spec_day_fraction_def)
  have f1: "\<lfloor>spec_events_value 216215 43200 - 1 / 2 ^ 19\<rfloor> = 295"
    unfolding v by (rule floor_unique) simp_all
  have f2: "\<lfloor>spec_events_value 216215 43200 + 1 / 2 ^ 19\<rfloor> = 295"
    unfolding v by (rule floor_unique) simp_all
  have f3: "spec_events_today 216215 43200 = 295"
    unfolding spec_events_today_def v by (rule floor_unique) simp_all
  note t = births_deaths_today [OF refl b, of 1718420400 noon_kst 1718420400000000]
  have s: "seconds_since_midnight_kst
     (snd (calculate_current_population example_manager 1718420400 noon_kst
        (get_korea_timezone_now 1718420400000000))) = 43200"
    using t by simp
  have "events_agree (annual_births (south_korea_data example_manager))
      (seconds_since_midnight_kst
        (snd (calculate_current_population example_manager 1718420400 noon_kst
           (get_korea_timezone_now 1718420400000000))))
      (sk_births_today
        (snd (calculate_current_population example_manager 1718420400 noon_kst
           (get_korea_timezone_now 1718420400000000))))"
    using t by blast
  then have e: "events_agree (annual_births (south_korea_data example_manager)) 43200
      (sk_births_today
        (snd (calculate_current_population example_manager 1718420400 noon_kst
           (get_korea_timezone_now 1718420400000000))))"
    unfolding s .
  from e have r: "sk_births_today
        (snd (calculate_current_population example_manager 1718420400 noon_kst
           (get_korea_timezone_now 1718420400000000))) = spec_events_today 216215 43200"
    unfolding events_agree_def Let_def example_manager_data initial_annual_values f1 f2
    by simp
  show ?thesis
    unfolding f1 f2 s r f3 using b by simp
qed

theorem sk_after_one_year_counterexample:
  "base_population (south_korea_data example_manager) = 51628117 \<and>
   annual_growth_rate (south_korea_data example_manager) = float_lit (- (21 / 100)) \<and>
   south_korea_population
     (snd (calculate_current_population example_manager (1704067200 + 1461 / 4 * 86400)
        one_year_kst one_year_kst)) \<noteq> 51520712"
  by (simp add: calculate_populations example_manager_data initial_data_fields sk_one_year)

text \<open>
  C3, amended. With South Korea's \<open>base_population = 51628117\<close> and
  \<open>annual_growth_rate = -0.21\<close>, the population at the epoch plus exactly 365.25 days is
  51519697, the truncation of \<open>51628117 - 108419.0457\<close> (not 51520712).
\<close>

theorem sk_after_one_year:
  assumes "base_population (south_korea_data self) = 51628117"
    and "annual_growth_rate (south_korea_data self) = float_lit (- (21 / 100))"
  shows "south_korea_population
           (snd (calculate_current_population self (1704067200 + 1461 / 4 * 86400) d1 d2)) =
         51519697"
  using assms by (simp add: calculate_populations sk_one_year)

theorem sk_after_one_year_witness:
  "base_population (south_korea_data example_manager) = 51628117 \<and>
   annual_growth_rate (south_korea_data example_manager) = float_lit (- (21 / 100)) \<and>
   south_korea_population
     (snd (calculate_current_population example_manager (1704067200 + 1461 / 4 * 86400)
        one_year_kst one_year_kst)) = 51519697"
  using sk_after_one_year [of example_manager one_year_kst one_year_kst]
  by (simp add: example_manager_data initial_data_fields)

lemma nk_at_epoch:
  "population_double 25971909 (float_lit (2 / 5)) 1704067200 = 25971909"
proof -
  have s1: "float_lit (2 / 5) = 3602879701896397 / 9007199254740992"
    unfolding float_lit_def
    by (rule rd_eval [where e = "- 2" and n = "7205759403792794"]) simp_all
  have s2: "fdiv (3602879701896397 / 9007199254740992) 100 = 1152921504606847 / 288230376151711744"
    unfolding fdiv_def
    by (rule rd_eval [where e = "- 8" and n = "4611686018427388"]) simp_all
  have s3: "float_of_int 25971909 = 25971909"
    unfolding float_of_int_def
    by (rule rd_eval [where e = "24" and n = "6971781235605504"]) simp_all
  have s4: "fmul (1152921504606847 / 288230376151711744) 25971909 = 1784775996315009 / 17179869184"
    unfolding fmul_def
    by (rule rd_eval [where e = "16" and n = "7139103985260036"]) simp_all
  have s5: "fsub 1704067200 1704067200 = 0"
    by (simp add: fsub_def rd_0)
  have s6: "fdiv 0 86400 = 0"
    by (simp add: fdiv_def rd_0)
  have s7: "fdiv 0 (1461 / 4) = 0"
    by (simp add: fdiv_def rd_0)
  have s8: "fmul (1784775996315009 / 17179869184) 0 = 0"
    by (simp add: fmul_def rd_0)
  have s9: "fadd 25971909 0 = 25971909"
    unfolding fadd_def
    by (rule rd_eval [where e = "24" and n = "6971781235605504"]) simp_all
  show ?thesis
    unfolding population_double_def elapsed_days_double_def
    by (simp only: s1 s2 s3 s4 s5 s6 s7 s8 s9) (rule py_int_eval(1); simp)
qed

lemma nk_one_second:
  "population_double 25971909 (float_lit (2 / 5)) 1704067201 = 25971909"
proof -
  have s1: "float_lit (2 / 5) = 3602879701896397 / 9007199254740992"
    unfolding float_lit_def
    by (rule rd_eval [where e = "- 2" and n = "7205759403792794"]) simp_all
  have s2: "fdiv (3602879701896397 / 9007199254740992) 100 = 1152921504606847 / 288230376151711744"
    unfolding fdiv_def
    by (rule rd_eval [where e = "- 8" and n = "4611686018427388"]) simp_all
  have s3: "float_of_int 25971909 = 25971909"
    unfolding float_of_int_def
    by (rule rd_eval [where e = "24" and n = "6971781235605504"]) simp_all
  have s4: "fmul (1152921504606847 / 288230376151711744) 25971909 = 1784775996315009 / 17179869184"
    unfolding fmul_def
    by (rule rd_eval [where e = "16" and n = "7139103985260036"]) simp_all
  have s5: "fsub 1704067201 1704067200 = 1"
    unfolding fsub_def
    by (rule rd_eval [where e = "0" and n = "4503599627370496"]) simp_all
  have s6: "fdiv 1 86400 = 6832127434707241 / 590295810358705651712"
    unfolding fdiv_def
    by (rule rd_eval [where e = "- 17" and n = "6832127434707241"]) simp_all
  have s7: "fdiv (6832127434707241 / 590295810358705651712) (1461 / 4) = 4788568441574411 / 151115727451828646838272"
    unfolding fdiv_def
    by (rule rd_eval [where e = "- 25" and n = "4788568441574411"]) simp_all
  have s8: "fmul (1784775996315009 / 17179869184) (4788568441574411 / 151115727451828646838272) = 474427275866861 / 144115188075855872"
    unfolding fmul_def
    by (rule rd_eval [where e = "- 9" and n = "7590836413869776"]) simp_all
  have s9: "fadd 25971909 (474427275866861 / 144115188075855872) = 3485890618244597 / 134217728"
    unfolding fadd_def
    by (rule rd_eval [where e = "24" and n = "6971781236489194"]) simp_all
  show ?thesis
    unfolding population_double_def elapsed_days_double_def
    by (simp only: s1 s2 s3 s4 s5 s6 s7 s8 s9) (rule py_int_eval(1); simp)
qed

lemma negative_population_data:
  "base_population (north_korea_data
      (update_base_data example_manager ''north_korea'' negative_population)) = - 1000000"
  "annual_growth_rate (north_korea_data
      (update_base_data example_manager ''north_korea'' negative_population)) = float_lit (4 / 10)"
  by (simp_all add: update_base_data_north py_lower_north_korea update_fields_def dict_get_def
      negative_population_def example_manager_data initial_data_fields)

theorem population_monotone_counterexample:
  "0 < annual_growth_rate (north_korea_data
         (update_base_data example_manager ''north_korea'' negative_population)) \<and>
   (1704067200 :: rat) \<le> 1735624800 \<and>
   north_korea_population (snd (calculate_current_population
       (update_base_data example_manager ''north_korea'' negative_population)
       1704067200 (kst_after_epoch 0) (kst_after_epoch 0))) = - 1000000 \<and>
   north_korea_population (snd (calculate_current_population
       (update_base_data example_manager ''north_korea'' negative_population)
       1735624800 one_year_kst one_year_kst)) = - 1004000 \<and>
   0 < annual_growth_rate (north_korea_data example_manager) \<and>
   (1704067200 :: rat) < 1704067201 \<and>
   north_korea_population (snd (calculate_current_population example_manager
       1704067200 (kst_after_epoch 0) (kst_after_epoch 0))) = 25971909 \<and>
   north_korea_population (snd (calculate_current_population example_manager
       1704067201 (kst_after_epoch 1) (kst_after_epoch 1))) = 25971909"
  by (simp add: calculate_populations negative_population_data negative_base_epoch
      negative_base_one_year example_manager_data initial_data_fields nk_at_epoch
      nk_one_second)
    (simp add: nk_rate_value)

text \<open>
  C4, amended. For a country whose \<open>base_population\<close> is not negative, and two times
  \<open>now1 \<le> now2\<close>: when \<open>annual_growth_rate > 0\<close> the population at \<open>now1\<close> is at most the
  population at \<open>now2\<close>, and when \<open>annual_growth_rate < 0\<close> it is at least that. The
  inequalities are not strict, and for a negative \<open>base_population\<close> they turn around.
\<close>

theorem population_monotone:
  assumes "now1 \<le> now2"
  shows
   "(0 \<le> base_population (south_korea_data self) \<longrightarrow>
       (0 < annual_growth_rate (south_korea_data self) \<longrightarrow>
          south_korea_population (snd (calculate_current_population self now1 d1 d2)) \<le>
          south_korea_population (snd (calculate_current_population self now2 d3 d4))) \<and>
       (annual_growth_rate (south_korea_data self) < 0 \<longrightarrow>
          south_korea_population (snd (calculate_current_population self now2 d3 d4)) \<le>
          south_korea_population (snd (calculate_current_population self now1 d1 d2)))) \<and>
    (0 \<le> base_population (north_korea_data self) \<longrightarrow>
       (0 < annual_growth_rate (north_korea_data self) \<longrightarrow>
          north_korea_population (snd (calculate_current_population self now1 d1 d2)) \<le>
          north_korea_population (snd (calculate_current_population self now2 d3 d4))) \<and>
       (annual_growth_rate (north_korea_data self) < 0 \<longrightarrow>
          north_korea_population (snd (calculate_current_population self now2 d3 d4)) \<le>
          north_korea_population (snd (calculate_current_population self now1 d1 d2))))"
  using population_double_mono [OF _ assms]
  by (simp add: calculate_populations)

theorem population_monotone_witness:
  "(1704067200 :: rat) \<le> 1735624800 \<and>
   0 \<le> base_population (south_korea_data example_manager) \<and>
   annual_growth_rate (south_korea_data example_manager) < 0 \<and>
   south_korea_population
     (snd (calculate_current_population example_manager 1735624800 one_year_kst one_year_kst)) \<le>
   south_korea_population
     (snd (calculate_current_population example_manager 1704067200 (kst_after_epoch 0) (kst_after_epoch 0))) \<and>
   0 \<le> base_population (north_korea_data example_manager) \<and>
   0 < annual_growth_rate (north_korea_data example_manager) \<and>
   north_korea_population
     (snd (calculate_current_population example_manager 1704067200 (kst_after_epoch 0) (kst_after_epoch 0))) \<le>
   north_korea_population
     (snd (calculate_current_population example_manager 1735624800 one_year_kst one_year_kst))"
  using population_monotone [of 1704067200 1735624800 example_manager "kst_after_epoch 0"
      "kst_after_epoch 0" one_year_kst one_year_kst]
  by (simp add: example_manager_data initial_data_fields sk_rate_value nk_rate_value)

lemma moderate_initial:
  "moderate initial_south_korea_data" "moderate initial_north_korea_data"
  by (simp_all add: moderate_def initial_annual_values initial_data_fields sk_rate_value
      nk_rate_value)

lemma huge_rate_bounds:
  "2 ^ 1023 \<le> float_lit (10 ^ 308)" "float_lit (10 ^ 308) \<le> 2 ^ 1024"
proof -
  have "rd (2 ^ 1023) \<le> rd (10 ^ 308)" by (rule rd_mono) simp
  then show "2 ^ 1023 \<le> float_lit (10 ^ 308)" by (simp only: rd_pow2 float_lit_def)
  have "rd (10 ^ 308) \<le> rd (2 ^ 1024)" by (rule rd_mono) simp
  then show "float_lit (10 ^ 308) \<le> 2 ^ 1024" by (simp only: rd_pow2 float_lit_def)
qed

lemma huge_rate_data:
  "base_population
     (south_korea_data (update_base_data example_manager ''south_korea'' huge_rate)) =
     51628117"
  "annual_growth_rate
     (south_korea_data (update_base_data example_manager ''south_korea'' huge_rate)) =
     float_lit (10 ^ 308)"
  "north_korea_data (update_base_data example_manager ''south_korea'' huge_rate) =
     initial_north_korea_data"
  by (simp_all add: update_base_data_south update_base_data_north py_lower_south_korea
      update_fields_def dict_get_def huge_rate_def example_manager_data)

lemma huge_rate_overflow:
  "calculate_current_population_checked
     (update_base_data example_manager ''south_korea'' huge_rate)
     1703980800 day_before_kst day_before_kst = Inl OverflowError"
proof (rule checked_overflow)
  show "2 ^ 1023 \<le> annual_growth_rate
      (south_korea_data (update_base_data example_manager ''south_korea'' huge_rate))"
    "annual_growth_rate
      (south_korea_data (update_base_data example_manager ''south_korea'' huge_rate)) \<le>
      2 ^ 1024"
    unfolding huge_rate_data by (rule huge_rate_bounds)+
  show "2 ^ 25 \<le> base_population
      (south_korea_data (update_base_data example_manager ''south_korea'' huge_rate))"
    "base_population
      (south_korea_data (update_base_data example_manager ''south_korea'' huge_rate)) \<le>
      2 ^ 53"
    unfolding huge_rate_data by simp_all
  show "moderate (north_korea_data
      (update_base_data example_manager ''south_korea'' huge_rate))"
    unfolding huge_rate_data by (rule moderate_initial)
  show "(1703980800 :: rat) \<le> 1704067200 - 86400" "- (2 ^ 62) \<le> (1703980800 :: rat)"
    by simp_all
qed

lemma valid_day_before: "valid_time day_before_kst"
  by (simp add: valid_time_def day_before_kst_def)

theorem population_before_epoch_counterexample:
  "(1703980800 :: rat) < 1704067200 \<and>
   base_population (south_korea_data example_manager) = 51628117 \<and>
   south_korea_population
     (snd (calculate_current_population example_manager 1703980800 day_before_kst day_before_kst)) =
     51628413 \<and>
   (1704067200 - 1 / 4194304 :: rat) < 1704067200 \<and>
   base_population (north_korea_data example_manager) = 25971909 \<and>
   north_korea_population
     (snd (calculate_current_population example_manager (1704067200 - 1 / 4194304)
        (kst_after_epoch 0) (kst_after_epoch 0))) = 25971909 \<and>
   annual_growth_rate
     (south_korea_data (update_base_data example_manager ''south_korea'' huge_rate)) =
     float_lit (10 ^ 308) \<and>
   calculate_current_population_checked
     (update_base_data example_manager ''south_korea'' huge_rate)
     1703980800 day_before_kst day_before_kst = Inl OverflowError"
  using nk_instant_before huge_rate_overflow huge_rate_data(2)
  by (simp add: calculate_populations example_manager_data initial_data_fields sk_day_before)

text \<open>
  C8, amended. For a time before the fixed epoch (and after \<open>- 2 ^ 62\<close>), a well-formed
  reading of the time of day, and data of both countries with a \<open>base_population\<close> from 0 to
  below \<open>2 ^ 53\<close>, annual births and deaths of magnitude below \<open>2 ^ 53\<close> and an
  \<open>annual_growth_rate\<close> of magnitude at most \<open>2 ^ 53\<close>, \<open>calculate_current_population\<close> raises
  no error, and the population is at most \<open>base_population\<close> when \<open>annual_growth_rate > 0\<close>
  and at least \<open>base_population\<close> when \<open>annual_growth_rate < 0\<close>. (With the shipped negative
  rate of South Korea the population before the epoch is above the base; one tick of the
  clock before the epoch the population of North Korea equals the base; with a growth rate
  of \<open>1e308\<close> the computation raises \<^verbatim>\<open>OverflowError\<close>.)
\<close>

theorem population_before_epoch:
  assumes "now < 1704067200" and "- (2 ^ 62) \<le> now" and "valid_time now_secs"
    and "moderate (south_korea_data self)" and "moderate (north_korea_data self)"
  shows
   "calculate_current_population_checked self now now_date now_secs =
      Inr (calculate_current_population self now now_date now_secs) \<and>
    (0 < annual_growth_rate (south_korea_data self) \<longrightarrow>
       south_korea_population (snd (calculate_current_population self now now_date now_secs)) \<le>
       base_population (south_korea_data self)) \<and>
    (annual_growth_rate (south_korea_data self) < 0 \<longrightarrow>
       base_population (south_korea_data self) \<le>
       south_korea_population (snd (calculate_current_population self now now_date now_secs))) \<and>
    (0 < annual_growth_rate (north_korea_data self) \<longrightarrow>
       north_korea_population (snd (calculate_current_population self now now_date now_secs)) \<le>
       base_population (north_korea_data self)) \<and>
    (annual_growth_rate (north_korea_data self) < 0 \<longrightarrow>
       base_population (north_korea_data self) \<le>
       north_korea_population (snd (calculate_current_population self now now_date now_secs)))"
proof -
  have le: "now \<le> 1704067200" using assms(1) by simp
  have t: "\<bar>now - 1704067200\<bar> \<le> 2 ^ 63" using assms(1,2) by simp
  have bs: "0 \<le> base_population (south_korea_data self)"
    "base_population (south_korea_data self) < 2 ^ 53"
    using assms(4) by (simp_all add: moderate_def)
  have bn: "0 \<le> base_population (north_korea_data self)"
    "base_population (north_korea_data self) < 2 ^ 53"
    using assms(5) by (simp_all add: moderate_def)
  show ?thesis
    using checked_agrees [OF assms(4,5) t assms(3), of now_date]
      population_double_before [OF bs le] population_double_before [OF bn le]
    by (simp add: calculate_populations)
qed

theorem population_before_epoch_witness:
  "(1703980800 :: rat) < 1704067200 \<and> - (2 ^ 62) \<le> (1703980800 :: rat) \<and>
   valid_time day_before_kst \<and>
   moderate (south_korea_data example_manager) \<and>
   moderate (north_korea_data example_manager) \<and>
   calculate_current_population_checked example_manager 1703980800 day_before_kst
     day_before_kst =
     Inr (calculate_current_population example_manager 1703980800 day_before_kst
            day_before_kst) \<and>
   annual_growth_rate (south_korea_data example_manager) < 0 \<and>
   base_population (south_korea_data example_manager) \<le>
     south_korea_population
       (snd (calculate_current_population example_manager 1703980800 day_before_kst
          day_before_kst)) \<and>
   0 < annual_growth_rate (north_korea_data example_manager) \<and>
   north_korea_population
       (snd (calculate_current_population example_manager 1703980800 day_before_kst
          day_before_kst)) \<le>
     base_population (north_korea_data example_manager)"
proof -
  have h: "(1703980800 :: rat) < 1704067200" "- (2 ^ 62) \<le> (1703980800 :: rat)"
    "valid_time day_before_kst"
    "moderate (south_korea_data example_manager)"
    "moderate (north_korea_data example_manager)"
    by (simp_all add: valid_day_before example_manager_data moderate_initial)
  have r: "annual_growth_rate (south_korea_data example_manager) < 0"
    "0 < annual_growth_rate (north_korea_data example_manager)"
    by (simp_all add: example_manager_data initial_data_fields sk_rate_value nk_rate_value)
  from population_before_epoch [OF h, of day_before_kst] r h show ?thesis
    by blast
qed

section \<open>The broadcaster: properties\<close>

lemma remove_client_eq:
  "remove_client self c = Inr (self\<lparr> connected_clients := remove1 c (connected_clients self) \<rparr>)"
  by (simp add: remove_client_def list_remove_def remove1_idem)

lemma remove_loop_eq:
  "remove_loop self ds =
     Inr (self\<lparr> connected_clients := foldl (\<lambda>cs c. remove1 c cs) (connected_clients self) ds \<rparr>)"
  by (induction ds arbitrary: self) (simp_all add: remove_client_eq)

lemma remove_failed:
  "\<forall>y \<in> set ys. \<not> P y \<Longrightarrow>
     foldl (\<lambda>cs c. remove1 c cs) (ys @ xs) (filter P xs) = ys @ filter (\<lambda>c. \<not> P c) xs"
proof (induction xs arbitrary: ys)
  case Nil
  then show ?case by simp
next
  case (Cons x xs)
  show ?case
  proof (cases "P x")
    case True
    then have "x \<notin> set ys" using Cons.prems by auto
    then have "remove1 x (ys @ x # xs) = ys @ xs" by (simp add: remove1_append)
    then show ?thesis using True Cons.IH [OF Cons.prems] by simp
  next
    case False
    then have "\<forall>y \<in> set (ys @ [x]). \<not> P y" using Cons.prems by simp
    from Cons.IH [OF this] False show ?thesis by simp
  qed
qed

lemma membership_changes_frame:
  "\<exists>s. membership_changes self changes = Inr s \<and>
     resync_interval s = resync_interval self \<and>
     last_resync_time s = last_resync_time self"
proof (induction changes arbitrary: self)
  case Nil
  then show ?case by simp
next
  case (Cons change rest)
  show ?case
  proof (cases change)
    case (Connects c)
    from Cons.IH [of "add_client self c"] show ?thesis
      by (auto simp: Connects add_client_def)
  next
    case (Disconnects c)
    from Cons.IH [of "self\<lparr> connected_clients := remove1 c (connected_clients self) \<rparr>"]
    show ?thesis by (auto simp: Disconnects remove_client_eq)
  qed
qed

lemma send_loop_frame:
  "\<exists>s delivered' disconnected'.
     send_loop fails awaits self i delivered disconnected = Inr (s, delivered', disconnected') \<and>
     resync_interval s = resync_interval self \<and>
     last_resync_time s = last_resync_time self"
proof (induction fails awaits self i delivered disconnected rule: send_loop.induct)
  case (1 fails self i delivered disconnected)
  then show ?case by (subst send_loop.simps) (simp add: Let_def)
next
  case (2 fails changes awaits self i delivered disconnected)
  show ?case
  proof (cases "i < length (connected_clients self)")
    case False
    then show ?thesis by (subst send_loop.simps) simp
  next
    case True
    from membership_changes_frame [of self changes] obtain s where
      s: "membership_changes self changes = Inr s"
      "resync_interval s = resync_interval self" "last_resync_time s = last_resync_time self"
      by blast
    show ?thesis
    proof (cases "fails (connected_clients self ! i)")
      case f: True
      from "2.IH"(1) [OF True refl s(1) f] show ?thesis
        by (subst send_loop.simps) (simp add: True f s Let_def)
    next
      case f: False
      from "2.IH"(2) [OF True refl s(1) f] show ?thesis
        by (subst send_loop.simps) (simp add: True f s Let_def)
    qed
  qed
qed

lemma send_loop_sequential:
  "send_loop fails [] self i delivered disconnected =
     Inr (self, delivered @ filter (\<lambda>c. \<not> fails c) (drop i (connected_clients self)),
          disconnected @ filter fails (drop i (connected_clients self)))"
proof (induction "length (connected_clients self) - i" arbitrary: i delivered disconnected)
  case 0
  then show ?case by (subst send_loop.simps) simp
next
  case (Suc n)
  then have i: "i < length (connected_clients self)" by simp
  have n: "n = length (connected_clients self) - Suc i" using Suc.hyps(2) by simp
  have d: "drop i (connected_clients self) =
      connected_clients self ! i # drop (Suc i) (connected_clients self)"
    using i by (simp add: Cons_nth_drop_Suc)
  show ?case
    by (subst send_loop.simps) (simp add: i d Let_def Suc.hyps(1) [OF n])
qed

lemma broadcast_update_sequential:
  "broadcast_update self state now_kst fails [] =
     (if connected_clients self = [] then Inr (self, None)
      else
        let is_resync_time =
              (resync_interval self \<le> fsub (timestamp state) (last_resync_time self));
            self1 = (if is_resync_time
                     then self\<lparr> last_resync_time := timestamp state \<rparr> else self);
            message =
              \<lparr> msg_timestamp = timestamp state,
                msg_south_korea_population = south_korea_population state,
                msg_north_korea_population = north_korea_population state,
                msg_total_population = total_population state,
                msg_sk_births_today = sk_births_today state,
                msg_sk_deaths_today = sk_deaths_today state,
                msg_nk_births_today = nk_births_today state,
                msg_nk_deaths_today = nk_deaths_today state,
                msg_korea_time = strftime_hms now_kst,
                msg_seconds_since_midnight = seconds_since_midnight_kst state,
                msg_is_resync = is_resync_time,
                msg_sk_births_per_sec = sk_births_per_sec self,
                msg_sk_deaths_per_sec = sk_deaths_per_sec self,
                msg_nk_births_per_sec = nk_births_per_sec self,
                msg_nk_deaths_per_sec = nk_deaths_per_sec self,
                msg_any_birth = False,
                msg_any_death = False \<rparr>
        in Inr (self1\<lparr> connected_clients :=
                        filter (\<lambda>c. \<not> fails c) (connected_clients self) \<rparr>,
                Some (message, filter (\<lambda>c. \<not> fails c) (connected_clients self))))"
  using remove_failed [of "[]" fails "connected_clients self"]
  by (simp add: broadcast_update_def Let_def send_loop_sequential remove_loop_eq)

lemma broadcast_update_result:
  "connected_clients self \<noteq> [] \<Longrightarrow>
     \<exists>s1 m cs. broadcast_update self state now_kst fails awaits = Inr (s1, Some (m, cs)) \<and>
       resync_interval s1 = resync_interval self \<and>
       msg_timestamp m = timestamp state \<and>
       msg_is_resync m =
         (resync_interval self \<le> fsub (timestamp state) (last_resync_time self)) \<and>
       last_resync_time s1 =
         (if msg_is_resync m then timestamp state else last_resync_time self) \<and>
       msg_total_population m = total_population state \<and>
       msg_south_korea_population m = south_korea_population state \<and>
       msg_north_korea_population m = north_korea_population state"
proof -
  assume ne: "connected_clients self \<noteq> []"
  define self1 where "self1 =
    (if resync_interval self \<le> fsub (timestamp state) (last_resync_time self)
     then self\<lparr> last_resync_time := timestamp state \<rparr> else self)"
  from send_loop_frame [of fails awaits self1 0 "[]" "[]"] obtain s d dc where
    s: "send_loop fails awaits self1 0 [] [] = Inr (s, d, dc)"
    "resync_interval s = resync_interval self1" "last_resync_time s = last_resync_time self1"
    by blast
  have r: "remove_loop s dc =
      Inr (s\<lparr> connected_clients := foldl (\<lambda>cs c. remove1 c cs) (connected_clients s) dc \<rparr>)"
    by (rule remove_loop_eq)
  show ?thesis
    using ne s r unfolding self1_def
    by (auto simp add: broadcast_update_def Let_def)
qed

lemma calculate_frame:
  "connected_clients (fst (calculate_current_population self t d1 d2)) = connected_clients self"
  "resync_interval (fst (calculate_current_population self t d1 d2)) = resync_interval self"
  "last_resync_time (fst (calculate_current_population self t d1 d2)) = last_resync_time self"
  "timestamp (snd (calculate_current_population self t d1 d2)) = t"
  by (simp_all add: calculate_current_population_def Let_def)

lemma tick_idle:
  "connected_clients self = [] \<Longrightarrow>
     tick self t d1 d2 d3 fails awaits =
       Inr (fst (calculate_current_population self t d1 d2), None)"
  by (simp add: tick_def Let_def broadcast_update_def calculate_frame)

lemma calculate_total:
  "total_population (snd (calculate_current_population self t d1 d2)) =
     south_korea_population (snd (calculate_current_population self t d1 d2)) +
     north_korea_population (snd (calculate_current_population self t d1 d2))"
  by (simp add: calculate_current_population_def Let_def)

lemma tick_result:
  "\<exists>s1 out. tick self t d1 d2 d3 fails awaits = Inr (s1, out) \<and>
     resync_interval s1 = resync_interval self \<and>
     (case out of
        None \<Rightarrow> connected_clients self = [] \<and> last_resync_time s1 = last_resync_time self
      | Some (m, cs) \<Rightarrow>
          connected_clients self \<noteq> [] \<and>
          msg_timestamp m = t \<and>
          msg_is_resync m = (resync_interval self \<le> fsub t (last_resync_time self)) \<and>
          last_resync_time s1 = (if msg_is_resync m then t else last_resync_time self) \<and>
          msg_total_population m =
            msg_south_korea_population m + msg_north_korea_population m)"
proof (cases "connected_clients self = []")
  case True
  then show ?thesis by (simp add: tick_idle calculate_frame)
next
  case False
  define r where "r = calculate_current_population self t d1 d2"
  have ne: "connected_clients (fst r) \<noteq> []" using False by (simp add: r_def calculate_frame)
  from broadcast_update_result [OF ne, of "snd r" d3 fails awaits] obtain s1 m cs where
    "broadcast_update (fst r) (snd r) d3 fails awaits = Inr (s1, Some (m, cs))"
    "resync_interval s1 = resync_interval (fst r)"
    "msg_timestamp m = timestamp (snd r)"
    "msg_is_resync m =
       (resync_interval (fst r) \<le> fsub (timestamp (snd r)) (last_resync_time (fst r)))"
    "last_resync_time s1 =
       (if msg_is_resync m then timestamp (snd r) else last_resync_time (fst r))"
    "msg_total_population m = total_population (snd r)"
    "msg_south_korea_population m = south_korea_population (snd r)"
    "msg_north_korea_population m = north_korea_population (snd r)"
    by blast
  then show ?thesis
    using False calculate_total [of self t d1 d2]
    by (simp add: tick_def Let_def r_def calculate_frame)
qed

lemma tick_sequential:
  "connected_clients self \<noteq> [] \<Longrightarrow>
     \<exists>s1 m. tick self t d1 d2 d3 fails [] =
         Inr (s1, Some (m, filter (\<lambda>c. \<not> fails c) (connected_clients self))) \<and>
       connected_clients s1 = filter (\<lambda>c. \<not> fails c) (connected_clients self)"
  by (simp add: tick_def Let_def broadcast_update_sequential calculate_frame)


lemma run_total: "\<exists>self' tr. run self evs = Inr (self', tr)"
proof (induction evs arbitrary: self)
  case Nil
  then show ?case by simp
next
  case (Cons e evs)
  show ?case
  proof (cases e)
    case (Tick t d1 d2 d3 fails awaits)
    from tick_result [of self t d1 d2 d3 fails awaits] obtain s1 out where
      "tick self t d1 d2 d3 fails awaits = Inr (s1, out)" by blast
    moreover from Cons.IH [of s1] obtain s2 tr where "run s1 evs = Inr (s2, tr)" by blast
    ultimately show ?thesis using Tick by simp
  next
    case (AddClient c)
    then show ?thesis using Cons.IH by simp
  next
    case (RemoveClient c)
    then show ?thesis using Cons.IH by (simp add: remove_client_eq)
  next
    case (Calculate t d1 d2)
    then show ?thesis using Cons.IH by simp
  next
    case (UpdateBaseData country nd)
    then show ?thesis using Cons.IH by simp
  qed
qed

lemma run_Tick:
  assumes "run self (Tick t d1 d2 d3 fails awaits # evs) = Inr (self', tr)"
  obtains s1 out tr' where "tick self t d1 d2 d3 fails awaits = Inr (s1, out)"
    "run s1 evs = Inr (self', tr')" "tr = out # tr'"
  using assms by (auto split: sum.splits prod.splits)

lemma run_totals:
  "run self evs = Inr (self', tr) \<Longrightarrow> Some (m, cs) \<in> set tr \<Longrightarrow>
     msg_total_population m = msg_south_korea_population m + msg_north_korea_population m"
proof (induction evs arbitrary: self tr)
  case Nil
  then show ?case by simp
next
  case (Cons e evs)
  show ?case
  proof (cases e)
    case (Tick t d1 d2 d3 fails awaits)
    from Cons.prems(1) [unfolded Tick] obtain s1 out tr' where
      t: "tick self t d1 d2 d3 fails awaits = Inr (s1, out)" and r: "run s1 evs = Inr (self', tr')"
      and tr: "tr = out # tr'" by (rule run_Tick)
    show ?thesis
    proof (cases "out = Some (m, cs)")
      case True
      with tick_result [of self t d1 d2 d3 fails awaits] t show ?thesis by auto
    next
      case False
      then have "Some (m, cs) \<in> set tr'" using Cons.prems(2) tr by auto
      with Cons.IH [OF r] show ?thesis by simp
    qed
  next
    case (AddClient c')
    with Cons show ?thesis by simp
  next
    case (RemoveClient c')
    with Cons show ?thesis by (simp add: remove_client_eq)
  next
    case (Calculate t d1 d2)
    with Cons show ?thesis by simp
  next
    case (UpdateBaseData country nd)
    with Cons show ?thesis by simp
  qed
qed

lemma rd_30: "rd 30 = 30"
  using rd_of_int [of 30] by simp



lemma double_clock_value:
  assumes "rd t = t" "2 ^ 30 \<le> \<bar>t\<bar>"
  shows "clock_value t"
proof -
  have t0: "t \<noteq> 0" using assms(2) by auto
  define e where "e = float_exponent t"
  define n where "n = round_half_even (t / 2 powi (e - 52))"
  have t: "t = of_int n * 2 powi (e - 52)"
    using assms(1) t0 by (simp add: rd_def Let_def e_def n_def)
  have "30 \<le> e"
  proof (rule ccontr)
    assume "\<not> 30 \<le> e"
    then have "e + 1 \<le> 30" by simp
    then have "(2::rat) powi (e + 1) \<le> 2 powi 30" by (intro power_int_increasing) simp_all
    with float_exponent_bounds(2) [OF t0] assms(2) show False by (simp add: e_def)
  qed
  define m where "m = nat (e - 30)"
  have e: "e - 52 = int m + (- 22)" using \<open>30 \<le> e\<close> by (simp add: m_def)
  have "t * 2 ^ 22 = of_int (n * 2 ^ m)"
    unfolding t e by (subst power_int_add) (simp_all add: power_int_minus power_int_of_nat)
  then show ?thesis by (simp add: clock_value_def)
qed






lemma resync_flags_length: "length (resync_flags l ts) = length ts"
  by (induction ts arbitrary: l) (simp_all add: Let_def)








lemma example_manager_state:
  "connected_clients example_manager = [7]"
  "resync_interval example_manager = 30"
  "last_resync_time example_manager = 1704067200"
  "connected_clients three_viewers = [1, 2, 3]"
  "resync_interval three_viewers = 30"
  "last_resync_time three_viewers = 1704067200"
  by (simp_all add: three_viewers_def no_viewers_def example_manager_def add_client_def
      init_def Let_def float_lit_def rd_30)


text \<open>
  C6 fails in the code. Viewers 1, 2 and 3 are connected; the send to viewer 1 raises, and
  while it is awaited the connection handler of viewer 1 runs \<^verbatim>\<open>remove_client\<close>
  (\<^verbatim>\<open>main.py\<close>, lines 157 and 158). The list shrinks under the iterator of line 321, whose
  next element is then viewer 3: the tick delivers to viewer 3 only, and viewer 2, whose
  send would have succeeded and who is still connected afterwards, gets no message.
\<close>

theorem failed_send_skips_viewer:
  "connected_clients three_viewers = [1, 2, 3] \<and>
   map_sum id (\<lambda>(s, out). (connected_clients s, map_option snd out))
     (tick three_viewers 1704067230 (kst_after_epoch 30) (kst_after_epoch 30)
        (kst_after_epoch 30) (\<lambda>c. c = 1) [[Disconnects 1]]) =
     Inr ([2, 3], Some [3])"
  by (simp add: tick_def Let_def broadcast_update_def calculate_frame example_manager_state
      send_loop.simps remove_client_def list_remove_def)

text \<open>
  C9. In the \<open>PopulationState\<close> that \<open>calculate_current_population\<close> returns, and in the
  message of every tick of every execution, \<open>total_population\<close> is the sum of
  \<open>south_korea_population\<close> and \<open>north_korea_population\<close> of the same snapshot.
\<close>

theorem total_is_sum:
  "total_population (snd (calculate_current_population self t d1 d2)) =
     south_korea_population (snd (calculate_current_population self t d1 d2)) +
     north_korea_population (snd (calculate_current_population self t d1 d2)) \<and>
   (run self evs = Inr (self', tr) \<longrightarrow> Some (m, cs) \<in> set tr \<longrightarrow>
      msg_total_population m = msg_south_korea_population m + msg_north_korea_population m)"
  using run_totals [of self evs self' tr m cs]
  by (simp add: calculate_current_population_def Let_def)

theorem total_is_sum_witness:
  "\<exists>s m. run example_manager later_tick = Inr (s, [Some (m, [7])]) \<and>
     Some (m, [7]) \<in> set [Some (m, [7])] \<and>
     msg_total_population m = msg_south_korea_population m + msg_north_korea_population m"
proof -
  obtain s tr where r: "run example_manager later_tick = Inr (s, tr)"
    using run_total by blast
  then obtain m where tr: "tr = [Some (m, [7])]"
    by (auto simp add: later_tick_def tick_def Let_def broadcast_update_sequential calculate_frame
        example_manager_state)
  from total_is_sum [of example_manager 1704067231 "kst_after_epoch 31" "kst_after_epoch 31"
      later_tick s tr m "[7]"] r tr
  have "msg_total_population m = msg_south_korea_population m + msg_north_korea_population m"
    by simp
  with r tr show ?thesis by simp
qed

end
